theory Spec2Isabelle
  imports Complex_Main "HOL-Library.Monad_Syntax" "HOL-Library.Multiset"
begin

section \<open>Surface patches of a point cloud: FinalProject.cpp\<close>

text \<open>
  The program loads the vertices of an OBJ file, estimates for every point the centroid and
  the normal of its neighbourhood, indexes the centroids in a second, tagged k-d tree and
  computes, for the neighbourhood of every centroid, a matrix of weights between normals.

  Conventions of the embedding.
  \<^item> A \<open>double\<close> (and tinyobj's \<open>float\<close>) is a \<^typ>\<open>real\<close>: rounding, overflow, infinities
    and NaN are not modelled. The one place where the source can produce a NaN, the division
    \<open>0.0 / 0\<close> of an empty neighbourhood, has no value in the model (\<open>None\<close>).
  \<^item> An \<open>alglib::real_2d_array\<close> is a list of rows, an \<open>integer_1d_array\<close> a list of
    \<^typ>\<open>int\<close>. The source indexes them without a check; in the model every read and write
    is guarded, and a run that leaves its arrays has no value (\<open>None\<close>).
  \<^item> Fresh storage (\<open>setlength\<close>, \<open>new double[k]\<close>) is filled with zeros. The loops
    overwrite every cell of it, as their closed forms below show; the runs on given storage
    below start the loops of the first half of \<open>main\<close> from any contents.
  \<^item> A \<open>for\<close> loop over a counter is \<open>for_loop\<close>, the state of the loop being the variables
    its body assigns.
  \<^item> The text written to \<open>std::cout\<close> is not modelled, the lines written to \<open>std::cerr\<close> are.
\<close>

subsection \<open>Arrays and loops\<close>

type_synonym real_1d_array = "real list"
type_synonym real_2d_array = "real list list"
type_synonym integer_1d_array = "int list"

text \<open>\<open>a[i]\<close> as a value.\<close>

definition rd :: "'a list \<Rightarrow> nat \<Rightarrow> 'a option" where
  "rd a i = (if i < length a then Some (a ! i) else None)"

text \<open>\<open>a[i] = x\<close>.\<close>

definition wr :: "'a list \<Rightarrow> nat \<Rightarrow> 'a \<Rightarrow> 'a list option" where
  "wr a i x = (if i < length a then Some (a[i := x]) else None)"

text \<open>\<open>a[t]\<close> where the index \<open>t\<close> is a signed integer (\<open>ae_int_t\<close>).\<close>

definition rd_at :: "'a list \<Rightarrow> int \<Rightarrow> 'a option" where
  "rd_at a t = (if 0 \<le> t then rd a (nat t) else None)"

text \<open>\<open>m[i][j]\<close> as a value, and \<open>m[i][j] = x\<close>.\<close>

definition rd2 :: "'a list list \<Rightarrow> nat \<Rightarrow> nat \<Rightarrow> 'a option" where
  "rd2 m i j = do { row \<leftarrow> rd m i; rd row j }"

definition wr2 :: "'a list list \<Rightarrow> nat \<Rightarrow> nat \<Rightarrow> 'a \<Rightarrow> 'a list list option" where
  "wr2 m i j x = do { row \<leftarrow> rd m i; row' \<leftarrow> wr row j x; wr m i row' }"

text \<open>\<open>a.setlength(n)\<close> and \<open>m.setlength(rows, cols)\<close>.\<close>

definition setlength :: "nat \<Rightarrow> 'a::zero list" where
  "setlength n = replicate n 0"

definition setlength2 :: "nat \<Rightarrow> nat \<Rightarrow> 'a::zero list list" where
  "setlength2 rows cols = replicate rows (replicate cols 0)"

text \<open>\<open>a.setcontent(n, p)\<close>: the first \<open>n\<close> values behind the pointer \<open>p\<close>.\<close>

definition setcontent :: "nat \<Rightarrow> 'a list \<Rightarrow> 'a list option" where
  "setcontent n p = (if n \<le> length p then Some (take n p) else None)"

text \<open>\<open>for (i = lo; i < n; i++) body\<close>, started at \<open>i\<close>.\<close>

function for_loop :: "nat \<Rightarrow> nat \<Rightarrow> (nat \<Rightarrow> 's \<Rightarrow> 's option) \<Rightarrow> 's \<Rightarrow> 's option" where
  "for_loop i n body s =
     (if i < n then (case body i s of None \<Rightarrow> None | Some s' \<Rightarrow> for_loop (Suc i) n body s')
      else Some s)"
  by pat_completeness auto
termination
  by (relation "measure (\<lambda>(i, n, body, s). n - i)") auto

declare for_loop.simps [simp del]

subsection \<open>Constants\<close>

definition cloudPointsBasePath :: string where
  "cloudPointsBasePath = ''PointClouds'' @ [CHR 0x5C]"

definition kdtTreeNormType :: nat where
  "kdtTreeNormType = 2"

definition dims :: nat where
  "dims = 3"

text \<open>
  Modelled from the spec: the sentinel "maximum" value of the diagonal, the maximum
  representable double. The program names it \<open>DBL_MAX\<close>, a macro of \<open>float.h\<close>: the
  largest finite double, 53 one bits at the top exponent.
\<close>

definition DBL_MAX :: real where
  "DBL_MAX = (2 ^ 53 - 1) * 2 ^ 971"

subsection \<open>Loading the cloud\<close>

text \<open>
  What \<open>tinyobj::LoadObj\<close> leaves behind for a file name: its return value, the flat list
  \<open>attrib.vertices\<close> and its two message buffers. The reader itself is outside the program;
  \<open>main\<close> takes it as a parameter.
\<close>

record obj_load =
  obj_ret :: bool
  obj_vertices :: "real list"
  obj_warn :: string
  obj_err :: string

text \<open>
  \<open>loadCloud\<close>: the loader's return value, the vertices, and the lines it adds to
  \<open>std::cerr\<close>.
\<close>

definition loadCloud :: "(string \<Rightarrow> obj_load) \<Rightarrow> string \<Rightarrow> bool \<times> real list \<times> string list" where
  "loadCloud LoadObj filename =
     (let r = LoadObj filename;
          cerr = (if obj_err r \<noteq> [] then [obj_err r] else []);
          cerr = cerr @ (if obj_warn r \<noteq> [] then [obj_warn r] else [])
      in (obj_ret r, obj_vertices r, cerr))"

definition getCloudPointFilename :: "string \<Rightarrow> string" where
  "getCloudPointFilename basePath = (let filename = ''xy_nearly.obj'' in basePath @ filename)"

text \<open>\<open>adaptDataPoints\<close>: the inner loop writes \<open>points[vertex][d] = vertices[marker + d]\<close>.\<close>

definition adapt_coord :: "real list \<Rightarrow> nat \<Rightarrow> nat \<Rightarrow> nat \<Rightarrow> real_2d_array \<Rightarrow> real_2d_array option" where
  "adapt_coord vertices vertex marker d points =
     do { x \<leftarrow> rd vertices (marker + d); wr2 points vertex d x }"

definition adapt_vertex :: "real list \<Rightarrow> nat \<Rightarrow> real_2d_array \<Rightarrow> real_2d_array option" where
  "adapt_vertex vertices vertex points =
     (let marker = vertex * dims in for_loop 0 dims (adapt_coord vertices vertex marker) points)"

definition adaptDataPoints :: "real list \<Rightarrow> nat \<Rightarrow> real_2d_array option" where
  "adaptDataPoints vertices numberOfVertices =
     for_loop 0 numberOfVertices (adapt_vertex vertices) (setlength2 numberOfVertices dims)"

subsection \<open>The k-d tree\<close>

text \<open>
  The k-d tree of ALGLIB is not part of the sources. Its five functions that the program
  calls are modelled from the contract the spec gives: build constructs a static index over
  exactly the given \<open>n\<close> points, the tagged variant storing one caller-supplied integer per
  point; a radius query returns all indexed points within Euclidean distance \<open>radius\<close> of
  the query point, the query point itself included when it is indexed. The tree keeps the
  results of the last query in a buffer of its own, from which the two result functions read.
\<close>

record kdtree =
  kd_xy :: real_2d_array
  kd_tags :: integer_1d_array
  kd_buf :: "(real_1d_array \<times> int) list"

text \<open>The first \<open>rows\<close> rows of \<open>m\<close> exist and hold \<open>cols\<close> values each.\<close>

definition has_shape :: "nat \<Rightarrow> nat \<Rightarrow> 'a list list \<Rightarrow> bool" where
  "has_shape rows cols m = (rows \<le> length m \<and> list_all (\<lambda>r. cols \<le> length r) (take rows m))"

text \<open>
  Modelled from the spec: \<open>kdtreebuildtagged\<close>, the index over exactly the first \<open>n\<close> rows,
  each cut to the \<open>nx\<close> coordinates, with the first \<open>n\<close> tags. Only the 2-norm is modelled. A
  matrix or a tag array too small for \<open>n\<close> points has no index.
\<close>

definition kdtreebuildtagged ::
  "real_2d_array \<Rightarrow> integer_1d_array \<Rightarrow> nat \<Rightarrow> nat \<Rightarrow> nat \<Rightarrow> nat \<Rightarrow> kdtree option" where
  "kdtreebuildtagged xy tags n nx ny normtype =
     (if has_shape n (nx + ny) xy \<and> n \<le> length tags \<and> normtype = 2
      then Some \<lparr>kd_xy = map (take nx) (take n xy), kd_tags = take n tags, kd_buf = []\<rparr>
      else None)"

text \<open>Modelled from the spec: \<open>kdtreebuild\<close>, the untagged variant; every tag is zero.\<close>

definition kdtreebuild :: "real_2d_array \<Rightarrow> nat \<Rightarrow> nat \<Rightarrow> nat \<Rightarrow> nat \<Rightarrow> kdtree option" where
  "kdtreebuild xy n nx ny normtype = kdtreebuildtagged xy (replicate n 0) n nx ny normtype"

text \<open>
  Modelled from the spec: the Euclidean distance of the radius query, as its square, and the
  test "within distance \<open>r\<close> of \<open>x\<close>", as a comparison of squares (\<open>in_radius_iff_distance\<close>
  below shows that it is the comparison of the distance with \<open>r\<close>).
\<close>

definition dist2 :: "real_1d_array \<Rightarrow> real_1d_array \<Rightarrow> real" where
  "dist2 p q = sum_list (map (\<lambda>(a, b). (a - b) ^ 2) (zip p q))"

definition in_radius :: "real_1d_array \<Rightarrow> real \<Rightarrow> real_1d_array \<Rightarrow> bool" where
  "in_radius x r p = (0 \<le> r \<and> dist2 p x \<le> r * r)"

text \<open>
  Modelled from the spec: \<open>kdtreequeryrnn\<close>, the radius query. It returns the number of
  indexed points within the radius and leaves them, with their tags, in the buffer. The
  spec leaves the order of the results open; the model keeps the order of the index.
\<close>

definition kdtreequeryrnn :: "kdtree \<Rightarrow> real_1d_array \<Rightarrow> real \<Rightarrow> nat \<times> kdtree" where
  "kdtreequeryrnn kdt x r =
     (let found = filter (\<lambda>(p, t). in_radius x r p) (zip (kd_xy kdt) (kd_tags kdt))
      in (length found, kdt\<lparr>kd_buf := found\<rparr>))"

text \<open>
  Modelled from the spec: \<open>kdtreequeryresultsx\<close> and \<open>kdtreequeryresultstags\<close>, the
  coordinates and the tags of the last query's results, written over the array passed in.
\<close>

definition kdtreequeryresultsx :: "kdtree \<Rightarrow> real_2d_array \<Rightarrow> real_2d_array" where
  "kdtreequeryresultsx kdt x = map fst (kd_buf kdt)"

definition kdtreequeryresultstags :: "kdtree \<Rightarrow> integer_1d_array \<Rightarrow> integer_1d_array" where
  "kdtreequeryresultstags kdt tags = map snd (kd_buf kdt)"

text \<open>The program's wrappers around the tree.\<close>

definition buildKDTree :: "real_2d_array \<Rightarrow> nat \<Rightarrow> kdtree option" where
  "buildKDTree points n =
     (let xdims = dims; ydims = 0; normType = kdtTreeNormType
      in kdtreebuild points n xdims ydims normType)"

definition buildTaggedKDTree :: "real_2d_array \<Rightarrow> integer_1d_array \<Rightarrow> nat \<Rightarrow> kdtree option" where
  "buildTaggedKDTree points tags n =
     (let xdims = dims; ydims = 0; normType = kdtTreeNormType
      in kdtreebuildtagged points tags n xdims ydims normType)"

text \<open>
  \<open>getKNeighbors\<close> returns \<open>k\<close>, fills \<open>result\<close> and leaves the tree with a new buffer: the
  three components of the model's result.
\<close>

definition getKNeighbors :: "kdtree \<Rightarrow> real_1d_array \<Rightarrow> real \<Rightarrow> nat \<times> real_2d_array \<times> kdtree" where
  "getKNeighbors kdt queryPoint radius =
     (let (k, kdt) = kdtreequeryrnn kdt queryPoint radius;
          result = setlength2 k dims;
          result = kdtreequeryresultsx kdt result
      in (k, result, kdt))"

definition getKNeighborsTagged ::
  "kdtree \<Rightarrow> real_1d_array \<Rightarrow> real \<Rightarrow> nat \<times> real_2d_array \<times> integer_1d_array \<times> kdtree" where
  "getKNeighborsTagged kdt queryPoint radius =
     (let (k, kdt) = kdtreequeryrnn kdt queryPoint radius;
          result = setlength2 k dims;
          tags = setlength k;
          result = kdtreequeryresultsx kdt result;
          tags = kdtreequeryresultstags kdt tags
      in (k, result, tags, kdt))"

subsection \<open>Centroid and normal of a neighbourhood\<close>

text \<open>
  \<open>calculateCentroid\<close>: three loops over the one array \<open>centroid\<close>. The last divides by
  \<open>k\<close>; for \<open>k = 0\<close> the quotient \<open>0.0 / 0\<close> is no real number.
\<close>

definition centroid_init :: "nat \<Rightarrow> real_1d_array \<Rightarrow> real_1d_array option" where
  "centroid_init d centroid = wr centroid d 0"

definition centroid_add :: "real_2d_array \<Rightarrow> nat \<Rightarrow> nat \<Rightarrow> real_1d_array \<Rightarrow> real_1d_array option" where
  "centroid_add points i d centroid =
     do { c \<leftarrow> rd centroid d; x \<leftarrow> rd2 points i d; wr centroid d (c + x) }"

definition centroid_sum :: "real_2d_array \<Rightarrow> nat \<Rightarrow> real_1d_array \<Rightarrow> real_1d_array option" where
  "centroid_sum points i centroid = for_loop 0 dims (centroid_add points i) centroid"

definition centroid_mean :: "nat \<Rightarrow> nat \<Rightarrow> real_1d_array \<Rightarrow> real_1d_array option" where
  "centroid_mean k d centroid =
     do { c \<leftarrow> rd centroid d; if k = 0 then None else wr centroid d (c / real k) }"

definition calculateCentroid :: "real_2d_array \<Rightarrow> nat \<Rightarrow> real_1d_array option" where
  "calculateCentroid points k =
     do { let centroid = setlength dims;
          centroid \<leftarrow> for_loop 0 dims centroid_init centroid;
          centroid \<leftarrow> for_loop 0 k (centroid_sum points) centroid;
          centroid \<leftarrow> for_loop 0 dims (centroid_mean k) centroid;
          Some centroid }"

text \<open>
  \<open>alglib::pcabuildbasis(points, k, dims, info, s2, v)\<close> is outside the program; the
  functions that call it take it as a parameter, a function from the point matrix, the number
  of points and the number of variables to the three values it returns.
\<close>

type_synonym pcabuildbasis = "real_2d_array \<Rightarrow> nat \<Rightarrow> nat \<Rightarrow> int \<times> real_1d_array \<times> real_2d_array"

text \<open>
  \<open>calculateNormal\<close>: \<open>pcaV[dims - 1]\<close> points to row \<open>dims - 1\<close> of the matrix, and
  \<open>setcontent\<close> copies \<open>dims\<close> values from there.
\<close>

definition calculateNormal :: "pcabuildbasis \<Rightarrow> real_2d_array \<Rightarrow> nat \<Rightarrow> real_1d_array option" where
  "calculateNormal pca points k =
     (let (pcaInfo, pcaS2, pcaV) = pca points k dims
      in do { row \<leftarrow> rd pcaV (dims - 1); setcontent dims row })"

subsection \<open>The weight matrix of a neighbourhood\<close>

text \<open>
  The body of the loop over \<open>v\<close> in \<open>main\<close>: the weight of the slots \<open>u\<close> and \<open>v\<close>, from the
  normals that the tags of the two slots index. \<open>abs\<close> of a \<open>double\<close> is the absolute value.
\<close>

definition weight :: "real_2d_array \<Rightarrow> integer_1d_array \<Rightarrow> nat \<Rightarrow> nat \<Rightarrow> real option" where
  "weight normals tags u v =
     (let weight = DBL_MAX
      in if u \<noteq> v
         then do { let weight = 1;
                   tu \<leftarrow> rd tags u; tv \<leftarrow> rd tags v;
                   nu \<leftarrow> rd_at normals tu; nv \<leftarrow> rd_at normals tv;
                   a \<leftarrow> rd nu 0; b \<leftarrow> rd nv 0;
                   let weight = weight - \<bar>a * b\<bar>;
                   a \<leftarrow> rd nu 1; b \<leftarrow> rd nv 1;
                   let weight = weight - \<bar>a * b\<bar>;
                   a \<leftarrow> rd nu 2; b \<leftarrow> rd nv 2;
                   let weight = weight - \<bar>a * b\<bar>;
                   Some weight }
         else Some weight)"

definition graph_entry ::
  "real_2d_array \<Rightarrow> integer_1d_array \<Rightarrow> nat \<Rightarrow> nat \<Rightarrow> real_2d_array \<Rightarrow> real_2d_array option" where
  "graph_entry normals tags u v graph = do { w \<leftarrow> weight normals tags u v; wr2 graph u v w }"

definition graph_row ::
  "real_2d_array \<Rightarrow> integer_1d_array \<Rightarrow> nat \<Rightarrow> nat \<Rightarrow> real_2d_array \<Rightarrow> real_2d_array option" where
  "graph_row normals tags k u graph =
     do { graph \<leftarrow> wr graph u (setlength k);
          for_loop 0 k (graph_entry normals tags u) graph }"

text \<open>
  The matrix \<open>graph\<close> of one centroid: \<open>new double*[k]\<close>, then the loop over \<open>u\<close>.
\<close>

definition patchGraph :: "real_2d_array \<Rightarrow> integer_1d_array \<Rightarrow> nat \<Rightarrow> real_2d_array option" where
  "patchGraph normals tags k = for_loop 0 k (graph_row normals tags k) (replicate k [])"

subsection \<open>The driver\<close>

definition copy_coord :: "real_1d_array \<Rightarrow> nat \<Rightarrow> nat \<Rightarrow> real_2d_array \<Rightarrow> real_2d_array option" where
  "copy_coord v i d m = do { x \<leftarrow> rd v d; wr2 m i d x }"

text \<open>
  The body of the loop over the points. Its state: the tree, \<open>centroids\<close>, \<open>normals\<close>
  and \<open>tagsCentroids\<close>.
\<close>

type_synonym planes = "kdtree \<times> real_2d_array \<times> real_2d_array \<times> integer_1d_array"

definition estimate_plane ::
  "pcabuildbasis \<Rightarrow> real_2d_array \<Rightarrow> real \<Rightarrow> nat \<Rightarrow> planes \<Rightarrow> planes option" where
  "estimate_plane pca points kRadius i st =
     (case st of (kdt, centroids, normals, tagsCentroids) \<Rightarrow>
        do { p \<leftarrow> rd points i;
             queryPoint \<leftarrow> setcontent dims p;
             let (k, neighbors, kdt) = getKNeighbors kdt queryPoint kRadius;
             centroid \<leftarrow> calculateCentroid neighbors k;
             centroids \<leftarrow> for_loop 0 dims (copy_coord centroid i) centroids;
             tagsCentroids \<leftarrow> wr tagsCentroids i (int i);
             normal \<leftarrow> calculateNormal pca neighbors k;
             normals \<leftarrow> for_loop 0 dims (copy_coord normal i) normals;
             Some (kdt, centroids, normals, tagsCentroids) })"

text \<open>
  The body of the loop over the centroids. The neighbourhood and the matrix are local to the
  iteration; the model keeps what the iteration reports, the neighbours, their tags and the
  matrix, in a list.
\<close>

type_synonym patch = "real_2d_array \<times> integer_1d_array \<times> real_2d_array"

type_synonym patches = "kdtree \<times> patch list"

definition centroid_patch ::
  "real_2d_array \<Rightarrow> real_2d_array \<Rightarrow> real \<Rightarrow> nat \<Rightarrow> patches \<Rightarrow> patches option" where
  "centroid_patch centroids normals kRadius i st =
     (case st of (kdtCentroids, reported) \<Rightarrow>
        do { c \<leftarrow> rd centroids i;
             queryCentroid \<leftarrow> setcontent dims c;
             let (k, neighbors, tags, kdtCentroids) = getKNeighborsTagged kdtCentroids queryCentroid kRadius;
             graph \<leftarrow> patchGraph normals tags k;
             Some (kdtCentroids, reported @ [(neighbors, tags, graph)]) })"

record geometry =
  the_points :: real_2d_array
  the_centroids :: real_2d_array
  the_normals :: real_2d_array
  the_tags :: integer_1d_array
  the_graphs :: "patch list"

record run =
  exit_status :: int
  cerr_lines :: "string list"
  computed :: "geometry option"

text \<open>
  \<open>main\<close>. A run that returns has an exit status, the lines on \<open>std::cerr\<close> and, when it got
  past the load, the arrays it computed.
\<close>

definition main :: "(string \<Rightarrow> obj_load) \<Rightarrow> pcabuildbasis \<Rightarrow> run option" where
  "main LoadObj pca =
     (let filename = getCloudPointFilename cloudPointsBasePath;
          (loaded, pcloud, cerr) = loadCloud LoadObj filename
      in if \<not> loaded
         then Some \<lparr>exit_status = 1,
                    cerr_lines = cerr @ [''ERROR: The OBJ file could not be loaded!''],
                    computed = None\<rparr>
         else do { let nPoints = length pcloud div dims;
                   points \<leftarrow> adaptDataPoints pcloud nPoints;
                   kdt \<leftarrow> buildKDTree points nPoints;
                   let normals = setlength2 nPoints dims;
                   let centroids = setlength2 nPoints dims;
                   let tagsCentroids = setlength nPoints;
                   let kRadius = 4;
                   (kdt, centroids, normals, tagsCentroids) \<leftarrow>
                     for_loop 0 nPoints (estimate_plane pca points kRadius)
                       (kdt, centroids, normals, tagsCentroids);
                   kdtCentroids \<leftarrow> buildTaggedKDTree centroids tagsCentroids nPoints;
                   (kdtCentroids, reported) \<leftarrow>
                     for_loop 0 nPoints (centroid_patch centroids normals kRadius)
                       (kdtCentroids, []);
                   Some \<lparr>exit_status = 0, cerr_lines = cerr,
                         computed = Some \<lparr>the_points = points, the_centroids = centroids,
                           the_normals = normals, the_tags = tagsCentroids,
                           the_graphs = reported\<rparr>\<rparr> })"

subsection \<open>Predicates and closed forms used in the statements\<close>

text \<open>
  The tags of the first \<open>k\<close> slots index rows of \<open>normals\<close> that hold \<open>dims\<close> values: what
  the loop over a neighbourhood needs to stay inside its arrays.
\<close>

definition tags_in_range :: "real_2d_array \<Rightarrow> integer_1d_array \<Rightarrow> nat \<Rightarrow> bool" where
  "tags_in_range normals tags k =
     (k \<le> length tags \<and>
      list_all (\<lambda>t. 0 \<le> t \<and> nat t < length normals \<and> dims \<le> length (normals ! nat t))
        (take k tags))"

text \<open>The value that \<open>weight\<close> computes when its reads succeed.\<close>

definition wgt :: "real_2d_array \<Rightarrow> integer_1d_array \<Rightarrow> nat \<Rightarrow> nat \<Rightarrow> real" where
  "wgt normals tags u v =
     (if u \<noteq> v
      then 1 - \<bar>normals ! nat (tags ! u) ! 0 * normals ! nat (tags ! v) ! 0\<bar>
             - \<bar>normals ! nat (tags ! u) ! 1 * normals ! nat (tags ! v) ! 1\<bar>
             - \<bar>normals ! nat (tags ! u) ! 2 * normals ! nat (tags ! v) ! 2\<bar>
      else DBL_MAX)"

text \<open>The point cloud of a flat list of coordinates: consecutive groups of \<open>dims\<close> values.\<close>

definition cloud :: "real list \<Rightarrow> real_2d_array" where
  "cloud vertices =
     map (\<lambda>i. map (\<lambda>d. vertices ! (i * dims + d)) [0..<dims]) [0..<length vertices div dims]"

text \<open>The points of \<open>xs\<close> within the radius \<open>r\<close> of \<open>q\<close>, and the mean of a neighbourhood.\<close>

definition ball :: "real_2d_array \<Rightarrow> real_1d_array \<Rightarrow> real \<Rightarrow> real_2d_array" where
  "ball xs q r = filter (in_radius q r) xs"

definition mean :: "real_2d_array \<Rightarrow> real_1d_array" where
  "mean nb = map (\<lambda>d. (\<Sum>i<length nb. nb ! i ! d) / real (length nb)) [0..<dims]"

text \<open>
  Row \<open>dims - 1\<close> of the matrix that the PCA returns for a neighbourhood, and the one
  assumption on the PCA: the matrix it returns has \<open>dims\<close> rows of \<open>dims\<close> values.
\<close>

definition last_row :: "pcabuildbasis \<Rightarrow> real_2d_array \<Rightarrow> real_1d_array" where
  "last_row pca nb = take dims (snd (snd (pca nb (length nb) dims)) ! (dims - 1))"

definition pca_square :: "pcabuildbasis \<Rightarrow> bool" where
  "pca_square pca = (\<forall>points k. has_shape dims dims (snd (snd (pca points k dims))))"

text \<open>
  The centroids within the radius of \<open>q\<close>, each with its index as tag, and what the loop over
  the centroids reports for centroid \<open>i\<close>.
\<close>

definition tagged_ball :: "real_2d_array \<Rightarrow> real_1d_array \<Rightarrow> real \<Rightarrow> (real_1d_array \<times> int) list" where
  "tagged_ball cs q r = filter (\<lambda>(p, t). in_radius q r p) (zip cs (map int [0..<length cs]))"

definition patch_of :: "real_2d_array \<Rightarrow> real_2d_array \<Rightarrow> real \<Rightarrow> nat \<Rightarrow> patch" where
  "patch_of cs ns r i =
     (let found = tagged_ball cs (cs ! i) r; tags = map snd found; k = length found
      in (map fst found, tags, map (\<lambda>u. map (wgt ns tags u) [0..<k]) [0..<k]))"

text \<open>The arrays of a run, as functions of the loaded coordinates.\<close>

definition geometry_of :: "pcabuildbasis \<Rightarrow> real list \<Rightarrow> geometry" where
  "geometry_of pca vertices =
     (let P = cloud vertices; r = 4;
          C = map (\<lambda>p. mean (ball P p r)) P;
          N = map (\<lambda>p. last_row pca (ball P p r)) P
      in \<lparr>the_points = P, the_centroids = C, the_normals = N,
          the_tags = map int [0..<length P],
          the_graphs = map (patch_of C N r) [0..<length P]\<rparr>)"

subsection \<open>The contract of the PCA\<close>

text \<open>
  Modelled from the spec: what \<open>pcabuildbasis\<close> returns, which is not part of the sources.
  The spec: the PCA of the \<open>k \<times> D\<close> matrix returns the eigenvalues in descending order and the
  eigenvectors of the covariance as the columns of a matrix, in the same order, the last
  column belonging to the smallest eigenvalue. The definitions of this subsection state that
  contract, for \<open>k \<ge> 2\<close> points; first column \<open>j\<close> of a matrix and the inner product of two
  vectors.
\<close>

definition column :: "real_2d_array \<Rightarrow> nat \<Rightarrow> real_1d_array" where
  "column m j = map (\<lambda>row. row ! j) m"

definition dot :: "real_1d_array \<Rightarrow> real_1d_array \<Rightarrow> real" where
  "dot a b = sum_list (map (\<lambda>(x, y). x * y) (zip a b))"

text \<open>
  Modelled from the spec: the first \<open>k\<close> points minus their mean, and the covariance matrix
  of the points applied to a vector.
\<close>

definition centred :: "real_2d_array \<Rightarrow> nat \<Rightarrow> real_2d_array" where
  "centred points k =
     (let nb = take k points; m = mean nb in map (\<lambda>p. map (\<lambda>d. p ! d - m ! d) [0..<dims]) nb)"

definition covariance_times :: "real_2d_array \<Rightarrow> nat \<Rightarrow> real_1d_array \<Rightarrow> real_1d_array" where
  "covariance_times points k v =
     map (\<lambda>a. sum_list (map (\<lambda>p. p ! a * dot p v) (centred points k)) / real (k - 1)) [0..<dims]"

text \<open>
  Modelled from the spec: \<open>pca_basis points k s2 v\<close> holds when the columns of \<open>v\<close> are
  orthonormal eigenvectors of the covariance of the points, column \<open>j\<close> for the eigenvalue
  \<open>s2 ! j\<close>, and \<open>s2\<close> descends.
\<close>

definition pca_basis :: "real_2d_array \<Rightarrow> nat \<Rightarrow> real_1d_array \<Rightarrow> real_2d_array \<Rightarrow> bool" where
  "pca_basis points k s2 v =
     (length s2 = dims \<and> has_shape dims dims v \<and> length v = dims \<and>
      list_all (\<lambda>j. covariance_times points k (column v j) = map (\<lambda>x. s2 ! j * x) (column v j))
        [0..<dims] \<and>
      list_all (\<lambda>i. list_all (\<lambda>j. dot (column v i) (column v j) = (if i = j then 1 else 0))
        [0..<dims]) [0..<dims] \<and>
      list_all (\<lambda>j. s2 ! Suc j \<le> s2 ! j) [0..<dims - 1])"

subsection \<open>Sample inputs\<close>

text \<open>
  Four points of the plane \<open>x = 0\<close>, spread more along \<open>y\<close> than along \<open>z\<close>, and the basis
  that a PCA returns for them: the columns are the unit vectors of \<open>y\<close>, \<open>z\<close> and \<open>x\<close>.
\<close>

definition yz_patch :: real_2d_array where
  "yz_patch = [[0, 2, 0], [0, - 2, 0], [0, 0, 1], [0, 0, - 1]]"

definition yz_basis :: real_2d_array where
  "yz_basis = [[0, 0, 1], [1, 0, 0], [0, 1, 0]]"

text \<open>
  A loader that delivers the four corners of a rectangle of the plane \<open>z = 0\<close> and two
  leftover coordinates; a loader that fails; and a PCA that returns, whatever it is given,
  the basis of that rectangle (all four corners are within the radius of each other, so the
  rectangle is the neighbourhood of each of them).
\<close>

definition square_cloud :: "string \<Rightarrow> obj_load" where
  "square_cloud filename =
     \<lparr>obj_ret = True, obj_vertices = [0, 0, 0, 2, 0, 0, 0, 1, 0, 2, 1, 0, 7, 7],
      obj_warn = [], obj_err = []\<rparr>"

definition no_cloud :: "string \<Rightarrow> obj_load" where
  "no_cloud filename =
     \<lparr>obj_ret = False, obj_vertices = [], obj_warn = [], obj_err = ''Cannot open file''\<rparr>"

definition xy_basis :: pcabuildbasis where
  "xy_basis points k nvars = (1, [4 / 3, 1 / 3, 0], [[1, 0, 0], [0, 1, 0], [0, 0, 1]])"

subsection \<open>Runs on given storage\<close>







section \<open>Verification\<close>

subsection \<open>Loops and guarded accesses\<close>

text \<open>
  The rule for a counting loop: an invariant that holds at the start and that every
  iteration re-establishes, returning a state, holds of the state the loop returns; in
  particular the loop returns.
\<close>

lemma for_loop_rule:
  assumes "I i s" and "i \<le> n"
    and step: "\<And>j t. i \<le> j \<Longrightarrow> j < n \<Longrightarrow> I j t \<Longrightarrow> \<exists>t'. body j t = Some t' \<and> I (Suc j) t'"
  shows "\<exists>t. for_loop i n body s = Some t \<and> I n t"
  using assms
proof (induction "n - i" arbitrary: i s)
  case 0
  then have "i = n" by simp
  with 0 show ?case by (simp add: for_loop.simps)
next
  case (Suc m)
  then have lt: "i < n" by simp
  from Suc.prems(3)[OF le_refl lt Suc.prems(1)]
  obtain t' where b: "body i s = Some t'" and I': "I (Suc i) t'" by blast
  have "\<exists>t. for_loop (Suc i) n body t' = Some t \<and> I n t"
  proof (rule Suc.hyps(1))
    show "m = n - Suc i" using Suc.hyps(2) by simp
    show "I (Suc i) t'" by (rule I')
    show "Suc i \<le> n" using lt by simp
    show "\<exists>t'. body j t = Some t' \<and> I (Suc j) t'" if "Suc i \<le> j" "j < n" "I j t" for j t
      using Suc.prems(3)[of j t] that by simp
  qed
  then show ?case using lt b by (subst for_loop.simps) simp
qed

lemma rd_Some [simp]: "i < length a \<Longrightarrow> rd a i = Some (a ! i)"
  by (simp add: rd_def)

lemma wr_Some [simp]: "i < length a \<Longrightarrow> wr a i x = Some (a[i := x])"
  by (simp add: wr_def)

lemma rd2_Some [simp]: "i < length m \<Longrightarrow> j < length (m ! i) \<Longrightarrow> rd2 m i j = Some (m ! i ! j)"
  by (simp add: rd2_def)

lemma wr2_Some [simp]:
  "i < length m \<Longrightarrow> j < length (m ! i) \<Longrightarrow> wr2 m i j x = Some (m[i := (m ! i)[j := x]])"
  by (simp add: wr2_def)

lemma rd_at_Some [simp]: "0 \<le> t \<Longrightarrow> nat t < length a \<Longrightarrow> rd_at a t = Some (a ! nat t)"
  by (simp add: rd_at_def)

text \<open>
  Two loops that occur several times: one that rewrites each of the first \<open>n\<close> cells of an
  array from its old value, and one that fills the first \<open>n\<close> cells of row \<open>i\<close> of a matrix.
\<close>

lemma update_at_prefix:
  assumes "length xs = d" "d < length r"
  shows "(xs @ drop d r)[d := y] = (xs @ [y]) @ drop (Suc d) r"
proof -
  have "drop d r = r ! d # drop (Suc d) r"
    using assms(2) by (simp add: Cons_nth_drop_Suc)
  then show ?thesis using assms(1) by (simp add: list_update_append)
qed

lemma for_loop_update_each:
  assumes n: "n \<le> length c"
    and body: "\<And>d a. d < n \<Longrightarrow> length a = length c \<Longrightarrow> a ! d = c ! d \<Longrightarrow> body d a = Some (a[d := f d (c ! d)])"
  shows "for_loop 0 n body c = Some (map (\<lambda>d. f d (c ! d)) [0..<n] @ drop n c)"
proof -
  let ?I = "\<lambda>d a. a = map (\<lambda>d. f d (c ! d)) [0..<d] @ drop d c"
  have "\<exists>a. for_loop 0 n body c = Some a \<and> ?I n a"
  proof (rule for_loop_rule[where I = ?I])
    show "?I 0 c" by simp
    show "0 \<le> n" by simp
    fix d a assume d: "d < n" and I: "?I d a"
    from d n have dc: "d < length c" by simp
    have "length a = length c" using I dc by simp
    moreover have "a ! d = c ! d" using I dc by (simp add: nth_append)
    ultimately have "body d a = Some (a[d := f d (c ! d)])" using body d by blast
    moreover have "?I (Suc d) (a[d := f d (c ! d)])"
      using I dc by (simp add: update_at_prefix)
    ultimately show "\<exists>a'. body d a = Some a' \<and> ?I (Suc d) a'" by blast
  qed
  then show ?thesis by blast
qed

lemma for_loop_update_row:
  assumes i: "i < length m" and n: "n \<le> length (m ! i)"
    and body: "\<And>d a. d < n \<Longrightarrow> length a = length m \<Longrightarrow> length (a ! i) = length (m ! i) \<Longrightarrow>
                 body d a = Some (a[i := (a ! i)[d := f d]])"
  shows "for_loop 0 n body m = Some (m[i := map f [0..<n] @ drop n (m ! i)])"
proof -
  let ?I = "\<lambda>d a. a = m[i := map f [0..<d] @ drop d (m ! i)]"
  have "\<exists>a. for_loop 0 n body m = Some a \<and> ?I n a"
  proof (rule for_loop_rule[where I = ?I])
    show "?I 0 m" by simp
    show "0 \<le> n" by simp
    fix d a assume d: "d < n" and I: "?I d a"
    from d n have dr: "d < length (m ! i)" by simp
    have "length a = length m" using I by simp
    moreover have "length (a ! i) = length (m ! i)" using I i dr by simp
    ultimately have "body d a = Some (a[i := (a ! i)[d := f d]])" using body d by blast
    moreover have "?I (Suc d) (a[i := (a ! i)[d := f d]])"
      using I i dr by (simp add: update_at_prefix)
    ultimately show "\<exists>a'. body d a = Some a' \<and> ?I (Suc d) a'" by blast
  qed
  then show ?thesis by blast
qed

lemma has_shapeD:
  assumes "has_shape rows cols m" "i < rows"
  shows "i < length m" "cols \<le> length (m ! i)"
  using assms by (auto simp: has_shape_def list_all_length)

lemma has_shape_exact:
  "has_shape n c m \<longleftrightarrow> n \<le> length m \<and> (\<forall>i<n. c \<le> length (m ! i))"
  by (auto simp: has_shape_def list_all_length)

lemma map_index: "map (\<lambda>i. f (xs ! i)) [0..<length xs] = map f xs"
  by (intro nth_equalityI) simp_all

lemma exact_rows:
  assumes "\<forall>p\<in>set P. length p = dims"
  shows "has_shape (length P) dims P" "map (take dims) (take (length P) P) = P"
  using assms by (auto simp: has_shape_def list_all_iff intro: map_idI)

lemma upt_dims: "[0..<dims] = [0, 1, 2]" "[0..<dims - 1] = [0, 1]"
  by (simp_all add: dims_def upt_conv_Cons numeral_3_eq_3)

subsection \<open>The weight matrix\<close>

lemma tags_in_rangeD:
  assumes "tags_in_range normals tags k" "u < k"
  shows "u < length tags" "0 \<le> tags ! u" "nat (tags ! u) < length normals"
    "dims \<le> length (normals ! nat (tags ! u))"
  using assms by (auto simp: tags_in_range_def list_all_length)

lemma weight_Some:
  assumes "tags_in_range normals tags k" "u < k" "v < k"
  shows "weight normals tags u v = Some (wgt normals tags u v)"
proof -
  note U = tags_in_rangeD[OF assms(1,2)] and V = tags_in_rangeD[OF assms(1,3)]
  from U(4) V(4) have "0 < length (normals ! nat (tags ! u))" "0 < length (normals ! nat (tags ! v))"
    "Suc 0 < length (normals ! nat (tags ! u))" "Suc 0 < length (normals ! nat (tags ! v))"
    "2 < length (normals ! nat (tags ! u))" "2 < length (normals ! nat (tags ! v))"
    by (auto simp: dims_def)
  with U V show ?thesis
    by (simp add: weight_def wgt_def Let_def)
qed

text \<open>One pass of the loop over \<open>u\<close>: row \<open>u\<close> is allocated and filled, the rows before stay.\<close>

lemma graph_row_Some:
  assumes ok: "tags_in_range normals tags k" and u: "u < k" and len: "length g = k"
    and prev: "\<forall>u'<u. g ! u' = map (wgt normals tags u') [0..<k]"
  shows "\<exists>g'. graph_row normals tags k u g = Some g' \<and> length g' = k \<and>
           (\<forall>u'<Suc u. g' ! u' = map (wgt normals tags u') [0..<k])"
proof -
  let ?g0 = "g[u := setlength k]"
  let ?J = "\<lambda>v h. length h = k \<and> length (h ! u) = k \<and>
              (\<forall>u'<u. h ! u' = map (wgt normals tags u') [0..<k]) \<and>
              (\<forall>v'<v. h ! u ! v' = wgt normals tags u v')"
  have "\<exists>h. for_loop 0 k (graph_entry normals tags u) ?g0 = Some h \<and> ?J k h"
  proof (rule for_loop_rule[where I = ?J])
    show "?J 0 ?g0" using u len prev by (simp add: setlength_def)
    show "0 \<le> k" by simp
    fix v h assume v: "v < k" and J: "?J v h"
    have "graph_entry normals tags u v h = Some (h[u := (h ! u)[v := wgt normals tags u v]])"
      using J u v by (simp add: graph_entry_def weight_Some[OF ok u v])
    moreover have "?J (Suc v) (h[u := (h ! u)[v := wgt normals tags u v]])"
      using J u v by (auto simp: nth_list_update less_Suc_eq)
    ultimately show "\<exists>h'. graph_entry normals tags u v h = Some h' \<and> ?J (Suc v) h'" by blast
  qed
  then obtain h where h: "for_loop 0 k (graph_entry normals tags u) ?g0 = Some h" and J: "?J k h"
    by blast
  have "h ! u = map (wgt normals tags u) [0..<k]"
    using J by (intro nth_equalityI) auto
  with J have "\<forall>u'<Suc u. h ! u' = map (wgt normals tags u') [0..<k]"
    by (auto simp: less_Suc_eq)
  with h J u len show ?thesis by (simp add: graph_row_def)
qed

text \<open>The matrix of a neighbourhood whose tags are in range: entry \<open>(u, v)\<close> is \<open>wgt u v\<close>.\<close>

lemma patchGraph_Some:
  assumes ok: "tags_in_range normals tags k"
  shows "patchGraph normals tags k = Some (map (\<lambda>u. map (wgt normals tags u) [0..<k]) [0..<k])"
proof -
  let ?I = "\<lambda>u g. length g = k \<and> (\<forall>u'<u. g ! u' = map (wgt normals tags u') [0..<k])"
  have "\<exists>g. for_loop 0 k (graph_row normals tags k) (replicate k []) = Some g \<and> ?I k g"
  proof (rule for_loop_rule[where I = ?I])
    show "?I 0 (replicate k [])" by simp
    show "0 \<le> k" by simp
    fix u g assume "u < k" "?I u g"
    then show "\<exists>g'. graph_row normals tags k u g = Some g' \<and> ?I (Suc u) g'"
      using graph_row_Some[OF ok, of u g] by blast
  qed
  then obtain g where g: "patchGraph normals tags k = Some g" and I: "?I k g"
    by (auto simp: patchGraph_def)
  have "g = map (\<lambda>u. map (wgt normals tags u) [0..<k]) [0..<k]"
    using I by (intro nth_equalityI) auto
  with g show ?thesis by simp
qed

text \<open>
  Claim C1. In the neighbourhood of a centroid, for two distinct slots \<open>u\<close> and \<open>v\<close>, the
  entry of the weight matrix is one minus the sum of the absolute values of the three products
  of corresponding components of the normals that \<open>tags[u]\<close> and \<open>tags[v]\<close> index. The
  matrix exists whenever the tags of the neighbourhood index the array of normals.
\<close>

theorem patch_weight_off_diagonal:
  assumes "tags_in_range normals tags k" and "u < k" and "v < k" and "u \<noteq> v"
  shows "\<exists>graph. patchGraph normals tags k = Some graph \<and>
           graph ! u ! v =
             1 - (\<bar>normals ! nat (tags ! u) ! 0 * normals ! nat (tags ! v) ! 0\<bar>
                + \<bar>normals ! nat (tags ! u) ! 1 * normals ! nat (tags ! v) ! 1\<bar>
                + \<bar>normals ! nat (tags ! u) ! 2 * normals ! nat (tags ! v) ! 2\<bar>)"
  using assms by (simp add: patchGraph_Some wgt_def)

theorem patch_weight_off_diagonal_witness:
  "\<exists>graph. patchGraph [[1, 0, 0], [0, 1, 0], [1 / 2, 1 / 2, 0]] [2, 0, 1] 3 = Some graph \<and>
     graph ! 0 ! 2 = 1 / 2"
  using patch_weight_off_diagonal
    [of "[[1, 0, 0], [0, 1, 0], [1 / 2, 1 / 2, 0]]" "[2, 0, 1]" 3 0 2]
  by (simp add: tags_in_range_def dims_def)

text \<open>
  Claim C7. In the neighbourhood of a centroid, of any size \<open>k \<ge> 1\<close>, every diagonal entry
  \<open>(u, u)\<close> of the weight matrix is the sentinel \<open>DBL_MAX\<close>.
\<close>

theorem patch_diagonal_sentinel:
  assumes "tags_in_range normals tags k" and "u < k"
  shows "\<exists>graph. patchGraph normals tags k = Some graph \<and> graph ! u ! u = DBL_MAX"
  using assms by (simp add: patchGraph_Some wgt_def)

theorem patch_diagonal_sentinel_witness:
  "\<exists>graph. patchGraph [[1, 0, 0], [0, 1, 0], [1 / 2, 1 / 2, 0]] [2, 0, 1] 3 = Some graph \<and>
     graph ! 1 ! 1 = DBL_MAX"
  using patch_diagonal_sentinel
    [of "[[1, 0, 0], [0, 1, 0], [1 / 2, 1 / 2, 0]]" "[2, 0, 1]" 3 1]
  by (simp add: tags_in_range_def dims_def)

text \<open>
  Claim C9. The weight matrix of a neighbourhood is symmetric: the entries \<open>(u, v)\<close> and
  \<open>(v, u)\<close> are equal for all slots \<open>u\<close> and \<open>v\<close>.
\<close>

theorem patch_graph_symmetric:
  assumes "tags_in_range normals tags k" and "u < k" and "v < k"
  shows "\<exists>graph. patchGraph normals tags k = Some graph \<and> graph ! u ! v = graph ! v ! u"
  using assms by (simp add: patchGraph_Some wgt_def mult.commute)

theorem patch_graph_symmetric_witness:
  "\<exists>graph. patchGraph [[1, 0, 0], [0, 1, 0], [1 / 2, 1 / 2, 0]] [2, 0, 1] 3 = Some graph \<and>
     graph ! 0 ! 2 = graph ! 2 ! 0"
  using patch_graph_symmetric
    [of "[[1, 0, 0], [0, 1, 0], [1 / 2, 1 / 2, 0]]" "[2, 0, 1]" 3 0 2]
  by (simp add: tags_in_range_def dims_def)

subsection \<open>The point cloud\<close>

lemma adapt_vertex_Some:
  assumes "vertex < length points" "dims \<le> length (points ! vertex)"
    "vertex * dims + dims \<le> length vertices"
  shows "adapt_vertex vertices vertex points =
           Some (points[vertex := map (\<lambda>d. vertices ! (vertex * dims + d)) [0..<dims]
                                   @ drop dims (points ! vertex)])"
  unfolding adapt_vertex_def Let_def
  using assms by (intro for_loop_update_row) (simp_all add: adapt_coord_def)

lemma adaptDataPoints_Some:
  assumes "n * dims \<le> length vertices"
  shows "adaptDataPoints vertices n =
           Some (map (\<lambda>i. map (\<lambda>d. vertices ! (i * dims + d)) [0..<dims]) [0..<n])"
proof -
  let ?row = "\<lambda>i. map (\<lambda>d. vertices ! (i * dims + d)) [0..<dims]"
  let ?I = "\<lambda>i m. m = map ?row [0..<i] @ replicate (n - i) (replicate dims 0)"
  have "\<exists>m. for_loop 0 n (adapt_vertex vertices) (setlength2 n dims) = Some m \<and> ?I n m"
  proof (rule for_loop_rule[where I = ?I])
    show "?I 0 (setlength2 n dims)" by (simp add: setlength2_def)
    show "0 \<le> n" by simp
    fix i m assume i: "i < n" and I: "?I i m"
    have "Suc i * dims \<le> n * dims" using i by (intro mult_le_mono1) simp
    then have bound: "i * dims + dims \<le> length vertices" using assms by simp
    have mi: "m ! i = replicate dims 0" using I i by (simp add: nth_append)
    have "adapt_vertex vertices i m = Some (m[i := ?row i @ drop dims (m ! i)])"
      using I i bound mi by (intro adapt_vertex_Some) simp_all
    moreover have "?I (Suc i) (m[i := ?row i @ drop dims (m ! i)])"
    proof -
      have "replicate (n - i) (replicate dims (0::real)) =
              replicate dims 0 # replicate (n - Suc i) (replicate dims 0)"
        using i by (simp add: Suc_diff_Suc flip: replicate_Suc)
      then show ?thesis using I mi by (simp add: list_update_append)
    qed
    ultimately show "\<exists>m'. adapt_vertex vertices i m = Some m' \<and> ?I (Suc i) m'" by blast
  qed
  then show ?thesis by (auto simp: adaptDataPoints_def)
qed

lemma cloud_rows: "\<forall>p\<in>set (cloud vertices). length p = dims"
  by (auto simp: cloud_def)

lemma length_cloud [simp]: "length (cloud vertices) = length vertices div dims"
  by (simp add: cloud_def)

subsection \<open>The centroid\<close>

lemma centroid_sum_Some:
  assumes "i < length points" "dims \<le> length (points ! i)" "length c = dims"
  shows "centroid_sum points i c = Some (map (\<lambda>d. c ! d + points ! i ! d) [0..<dims])"
proof -
  have "for_loop 0 dims (centroid_add points i) c =
          Some (map (\<lambda>d. (\<lambda>d x. x + points ! i ! d) d (c ! d)) [0..<dims] @ drop dims c)"
    using assms by (intro for_loop_update_each) (simp_all add: centroid_add_def)
  then show ?thesis using assms by (simp add: centroid_sum_def)
qed

lemma calculateCentroid_Some:
  assumes sh: "has_shape k dims points" and k: "0 < k"
  shows "calculateCentroid points k =
           Some (map (\<lambda>d. (\<Sum>i<k. points ! i ! d) / real k) [0..<dims])"
proof -
  have init: "for_loop 0 dims centroid_init (setlength dims) = Some (replicate dims 0)"
  proof -
    have "for_loop 0 dims centroid_init (setlength dims) =
            Some (map (\<lambda>d. (\<lambda>d x. 0) d ((setlength dims :: real list) ! d)) [0..<dims] @ drop dims (setlength dims))"
      by (intro for_loop_update_each) (simp_all add: centroid_init_def setlength_def)
    then show ?thesis by (simp add: setlength_def map_replicate_const)
  qed
  let ?I = "\<lambda>i c. c = map (\<lambda>d. \<Sum>j<i. points ! j ! d) [0..<dims]"
  have "\<exists>c. for_loop 0 k (centroid_sum points) (replicate dims 0) = Some c \<and> ?I k c"
  proof (rule for_loop_rule[where I = ?I])
    show "?I 0 (replicate dims 0)" by (simp add: map_replicate_const)
    show "0 \<le> k" by simp
    fix i c assume i: "i < k" and I: "?I i c"
    have "centroid_sum points i c = Some (map (\<lambda>d. c ! d + points ! i ! d) [0..<dims])"
      using has_shapeD[OF sh i] I by (intro centroid_sum_Some) simp_all
    moreover have "?I (Suc i) (map (\<lambda>d. c ! d + points ! i ! d) [0..<dims])"
      using I by simp
    ultimately show "\<exists>c'. centroid_sum points i c = Some c' \<and> ?I (Suc i) c'" by blast
  qed
  then have sum: "for_loop 0 k (centroid_sum points) (replicate dims 0) =
      Some (map (\<lambda>d. \<Sum>j<k. points ! j ! d) [0..<dims])" by blast
  let ?s = "map (\<lambda>d. \<Sum>j<k. points ! j ! d) [0..<dims]"
  have "for_loop 0 dims (centroid_mean k) ?s =
          Some (map (\<lambda>d. (\<lambda>d x. x / real k) d (?s ! d)) [0..<dims] @ drop dims ?s)"
    using k by (intro for_loop_update_each) (simp_all add: centroid_mean_def)
  then have mean: "for_loop 0 dims (centroid_mean k) ?s =
      Some (map (\<lambda>d. (\<Sum>j<k. points ! j ! d) / real k) [0..<dims])" by simp
  show ?thesis by (simp add: calculateCentroid_def init sum mean)
qed

lemma calculateCentroid_empty: "calculateCentroid points 0 = None"
proof -
  have init: "for_loop 0 dims centroid_init (setlength dims) = Some (replicate dims 0)"
  proof -
    have "for_loop 0 dims centroid_init (setlength dims) =
            Some (map (\<lambda>d. (\<lambda>d x. 0) d ((setlength dims :: real list) ! d)) [0..<dims] @ drop dims (setlength dims))"
      by (intro for_loop_update_each) (simp_all add: centroid_init_def setlength_def)
    then show ?thesis by (simp add: setlength_def map_replicate_const)
  qed
  have sum: "for_loop 0 0 (centroid_sum points) (replicate dims 0) = Some (replicate dims 0)"
    by (simp add: for_loop.simps[of 0 0])
  have mean: "for_loop 0 dims (centroid_mean 0) (replicate dims 0) = None"
    by (subst for_loop.simps) (simp add: dims_def centroid_mean_def)
  show ?thesis
    by (simp add: calculateCentroid_def init sum mean)
qed

lemma length_mean [simp]: "length (mean nb) = dims"
  by (simp add: mean_def)

lemma mean_sum_list:
  "mean nb = map (\<lambda>d. sum_list (map (\<lambda>p. p ! d) nb) / real (length nb)) [0..<dims]"
proof -
  have "(\<Sum>i<length nb. nb ! i ! d) = sum_list (map (\<lambda>p. p ! d) nb)" for d
    by (simp add: sum_list_sum_nth atLeast0LessThan)
  then show ?thesis by (simp add: mean_def)
qed

text \<open>
  Claim C3. For a neighbour set of \<open>k \<ge> 1\<close> points, \<open>calculateCentroid\<close> returns the
  arithmetic mean in each dimension: the sum of the \<open>k\<close> coordinates of that dimension,
  divided by \<open>k\<close>. For a single point (\<open>k = 1\<close>) the centroid is that point.
\<close>

theorem centroid_is_mean:
  assumes "has_shape k dims points" and "1 \<le> k"
  shows "\<exists>centroid. calculateCentroid points k = Some centroid \<and> length centroid = dims \<and>
           (\<forall>d<dims. centroid ! d = (\<Sum>i<k. points ! i ! d) / real k) \<and>
           (k = 1 \<longrightarrow> centroid = take dims (points ! 0))"
proof -
  let ?c = "map (\<lambda>d. (\<Sum>i<k. points ! i ! d) / real k) [0..<dims]"
  have c: "calculateCentroid points k = Some ?c"
    using assms by (intro calculateCentroid_Some) simp_all
  have "?c = take dims (points ! 0)" if "k = 1"
  proof -
    have "dims \<le> length (points ! 0)" using has_shapeD(2)[OF assms(1), of 0] that by simp
    then show ?thesis using that by (intro nth_equalityI) simp_all
  qed
  with c show ?thesis by simp
qed

theorem centroid_is_mean_witness:
  "(\<exists>centroid. calculateCentroid [[1, 2, 3], [3, 4, 5]] 2 = Some centroid \<and>
      centroid ! 0 = 2 \<and> centroid ! 1 = 3 \<and> centroid ! 2 = 4) \<and>
   calculateCentroid [[1, 2, 3]] 1 = Some [1, 2, 3]"
proof
  have "has_shape 2 dims [[1, 2, 3], [3, 4, 5 :: real]]"
    by (simp add: has_shape_def dims_def)
  from centroid_is_mean[OF this]
  obtain c where c: "calculateCentroid [[1, 2, 3], [3, 4, 5]] 2 = Some c"
    and v: "\<forall>d<dims. c ! d = (\<Sum>i<2. [[1, 2, 3], [3, 4, 5]] ! i ! d) / real 2"
    by auto
  have "c ! 0 = 2" "c ! 1 = 3" "c ! 2 = 4"
    using v[rule_format, of 0] v[rule_format, of 1] v[rule_format, of 2]
    by (simp_all add: dims_def lessThan_Suc numeral_2_eq_2)
  with c show "\<exists>centroid. calculateCentroid [[1, 2, 3], [3, 4, 5]] 2 = Some centroid \<and>
      centroid ! 0 = 2 \<and> centroid ! 1 = 3 \<and> centroid ! 2 = 4" by simp
next
  have "has_shape 1 dims [[1, 2, 3 :: real]]"
    by (simp add: has_shape_def dims_def)
  from centroid_is_mean[OF this]
  show "calculateCentroid [[1, 2, 3]] 1 = Some [1, 2, 3]"
    by (auto simp: dims_def)
qed

subsection \<open>The radius query\<close>

lemma dist2_self [simp]: "dist2 p p = 0"
  by (induction p) (simp_all add: dist2_def)

lemma dist2_nonneg: "0 \<le> dist2 p q"
  unfolding dist2_def by (intro sum_list_nonneg) auto

lemma in_radius_self: "0 \<le> r \<Longrightarrow> in_radius p r p"
  by (simp add: in_radius_def)

lemma in_radius_iff_distance: "in_radius x r p \<longleftrightarrow> sqrt (dist2 p x) \<le> r"
proof
  assume "in_radius x r p"
  then have r: "0 \<le> r" and d: "dist2 p x \<le> r * r" by (simp_all add: in_radius_def)
  from d have "sqrt (dist2 p x) \<le> sqrt (r * r)" by (rule real_sqrt_le_mono)
  with r show "sqrt (dist2 p x) \<le> r" by simp
next
  assume le: "sqrt (dist2 p x) \<le> r"
  have s: "0 \<le> sqrt (dist2 p x)" using dist2_nonneg by simp
  with le have r: "0 \<le> r" by linarith
  have "dist2 p x = sqrt (dist2 p x) * sqrt (dist2 p x)" using dist2_nonneg by simp
  also have "\<dots> \<le> r * r" using le s r by (intro mult_mono) simp_all
  finally show "in_radius x r p" using r by (simp add: in_radius_def)
qed

lemma filter_zip_fst:
  "length xs = length ts \<Longrightarrow> map fst (filter (\<lambda>(p, t). P p) (zip xs ts)) = filter P xs"
  by (induction xs ts rule: list_induct2) auto

lemma kdtreebuildtagged_Some:
  assumes "has_shape n nx xy" "n \<le> length tags"
  shows "kdtreebuildtagged xy tags n nx 0 2 =
           Some \<lparr>kd_xy = map (take nx) (take n xy), kd_tags = take n tags, kd_buf = []\<rparr>"
  using assms by (simp add: kdtreebuildtagged_def)

lemma buildKDTree_Some:
  assumes "has_shape n dims points"
  shows "buildKDTree points n =
           Some \<lparr>kd_xy = map (take dims) (take n points), kd_tags = replicate n 0, kd_buf = []\<rparr>"
  using assms
  by (simp add: buildKDTree_def kdtreebuild_def kdtTreeNormType_def kdtreebuildtagged_Some)

lemma buildKDTree_SomeD:
  assumes "buildKDTree points n = Some kdt"
  shows "has_shape n dims points"
    "kdt = \<lparr>kd_xy = map (take dims) (take n points), kd_tags = replicate n 0, kd_buf = []\<rparr>"
  using assms
  by (auto simp: buildKDTree_def kdtreebuild_def kdtreebuildtagged_def Let_def split: if_splits)

lemma buildTaggedKDTree_Some:
  assumes "has_shape n dims points" "n \<le> length tags"
  shows "buildTaggedKDTree points tags n =
           Some \<lparr>kd_xy = map (take dims) (take n points), kd_tags = take n tags, kd_buf = []\<rparr>"
  using assms
  by (simp add: buildTaggedKDTree_def kdtTreeNormType_def kdtreebuildtagged_Some)

lemma getKNeighbors_eq:
  assumes "length (kd_tags kdt) = length (kd_xy kdt)"
  shows "getKNeighbors kdt q r =
           (length (ball (kd_xy kdt) q r), ball (kd_xy kdt) q r,
            kdt\<lparr>kd_buf := filter (\<lambda>(p, t). in_radius q r p) (zip (kd_xy kdt) (kd_tags kdt))\<rparr>)"
proof -
  have "length (filter (\<lambda>(p, t). in_radius q r p) (zip (kd_xy kdt) (kd_tags kdt))) =
        length (map fst (filter (\<lambda>(p, t). in_radius q r p) (zip (kd_xy kdt) (kd_tags kdt))))"
    by simp
  also have "\<dots> = length (ball (kd_xy kdt) q r)"
    using assms by (simp add: filter_zip_fst ball_def)
  finally show ?thesis
    using assms
    by (simp add: getKNeighbors_def kdtreequeryrnn_def kdtreequeryresultsx_def Let_def
        filter_zip_fst ball_def)
qed

lemma getKNeighborsTagged_eq:
  "getKNeighborsTagged kdt q r =
     (let found = filter (\<lambda>(p, t). in_radius q r p) (zip (kd_xy kdt) (kd_tags kdt))
      in (length found, map fst found, map snd found, kdt\<lparr>kd_buf := found\<rparr>))"
  by (simp add: getKNeighborsTagged_def kdtreequeryrnn_def kdtreequeryresultsx_def
      kdtreequeryresultstags_def Let_def)

lemma ball_self_nonempty:
  assumes "q \<in> set xs" "0 \<le> r"
  shows "0 < length (ball xs q r)"
proof -
  have "q \<in> set (ball xs q r)" using assms by (simp add: ball_def in_radius_self)
  then show ?thesis by (cases "ball xs q r") auto
qed

lemma ball_rows:
  assumes "\<forall>p\<in>set P. length p = dims"
  shows "has_shape (length (ball P q r)) dims (ball P q r)"
  using assms by (auto simp: has_shape_def ball_def list_all_iff)

text \<open>
  Claim C4. A radius query for a point that is itself in the index returns \<open>k \<ge> 1\<close>
  neighbours, whatever the index holds besides and whatever an earlier query left in the
  buffer; with that \<open>k\<close> the division in \<open>calculateCentroid\<close> is not a division by zero,
  and the centroid exists.
\<close>

theorem radius_query_self_inclusion:
  assumes "buildKDTree points n = Some kdt" and "queryPoint \<in> set (kd_xy kdt)" and "0 \<le> radius"
  shows "case getKNeighbors (kdt\<lparr>kd_buf := buf\<rparr>) queryPoint radius of
           (k, neighbors, kdt') \<Rightarrow>
             1 \<le> k \<and> (\<exists>centroid. calculateCentroid neighbors k = Some centroid)"
proof -
  note b = buildKDTree_SomeD[OF assms(1)]
  let ?xy = "map (take dims) (take n points)"
  let ?nb = "ball ?xy queryPoint radius"
  have rows: "\<forall>p\<in>set ?xy. length p = dims"
  proof
    fix p assume "p \<in> set ?xy"
    then obtain row where "row \<in> set (take n points)" "p = take dims row" by auto
    moreover from this b(1) have "dims \<le> length row" by (auto simp: has_shape_def list_all_iff)
    ultimately show "length p = dims" by simp
  qed
  have g: "getKNeighbors (kdt\<lparr>kd_buf := buf\<rparr>) queryPoint radius =
      (length ?nb, ?nb,
       kdt\<lparr>kd_buf := filter (\<lambda>(p, t). in_radius queryPoint radius p) (zip ?xy (replicate n 0))\<rparr>)"
    using getKNeighbors_eq[of "kdt\<lparr>kd_buf := buf\<rparr>" queryPoint radius] b
    by (simp add: has_shape_def)
  have k: "0 < length ?nb" using assms(2,3) b(2) by (intro ball_self_nonempty) simp_all
  have "calculateCentroid ?nb (length ?nb) = Some (mean ?nb)"
    using calculateCentroid_Some[OF ball_rows[OF rows] k] by (simp add: mean_def)
  with g k show ?thesis by (simp add: Suc_le_eq)
qed

theorem radius_query_self_inclusion_witness:
  "\<exists>kdt. buildKDTree [[0, 0, 0], [1, 0, 0], [10, 10, 10]] 3 = Some kdt \<and>
     (case getKNeighbors (kdt\<lparr>kd_buf := []\<rparr>) [10, 10, 10] 4 of
        (k, neighbors, kdt') \<Rightarrow>
          1 \<le> k \<and> (\<exists>centroid. calculateCentroid neighbors k = Some centroid))"
proof -
  let ?kdt = "\<lparr>kd_xy = [[0, 0, 0], [1, 0, 0], [10, 10, 10]], kd_tags = [0, 0, 0], kd_buf = []\<rparr>"
  have b: "buildKDTree [[0, 0, 0], [1, 0, 0], [10, 10, 10]] 3 = Some ?kdt"
    by (simp add: buildKDTree_def kdtreebuild_def kdtreebuildtagged_def kdtTreeNormType_def
        has_shape_def dims_def numeral_3_eq_3)
  have c: "case getKNeighbors (?kdt\<lparr>kd_buf := []\<rparr>) [10, 10, 10] 4 of
        (k, neighbors, kdt') \<Rightarrow>
          1 \<le> k \<and> (\<exists>centroid. calculateCentroid neighbors k = Some centroid)"
    using radius_query_self_inclusion[OF b, of "[10, 10, 10]" 4 "[]"] by simp
  show ?thesis by (rule exI[of _ ?kdt], rule conjI, rule b, rule c)
qed

subsection \<open>The normal\<close>

lemma calculateNormal_Some:
  assumes "pca_square pca"
  shows "calculateNormal pca points k =
           Some (take dims (snd (snd (pca points k dims)) ! (dims - 1)))"
proof -
  obtain info s2 v where p: "pca points k dims = (info, s2, v)" by (cases "pca points k dims") auto
  from assms have "has_shape dims dims (snd (snd (pca points k dims)))"
    unfolding pca_square_def by blast
  then have "has_shape dims dims v" by (simp add: p)
  then have "dims - 1 < length v" "dims \<le> length (v ! (dims - 1))"
    by (auto simp: has_shape_exact dims_def)
  then show ?thesis by (simp add: calculateNormal_def p setcontent_def)
qed

lemma length_last_row:
  assumes "pca_square pca"
  shows "length (last_row pca nb) = dims"
proof -
  from assms have "has_shape dims dims (snd (snd (pca nb (length nb) dims)))"
    unfolding pca_square_def by blast
  then have "dims \<le> length (snd (snd (pca nb (length nb) dims)) ! (dims - 1))"
    by (auto simp: has_shape_exact dims_def)
  then show ?thesis by (simp add: last_row_def)
qed

lemma mean_yz: "mean (take 4 yz_patch) = [0, 0, 0]"
  by (simp add: mean_sum_list yz_patch_def upt_dims)

text \<open>
  Claim C2 says that the normal is the eigenvector of the smallest eigenvalue, the last column
  of the matrix of eigenvectors. \<open>calculateNormal\<close> returns the last row of that matrix
  (\<open>calculateNormal_Some\<close>), which is another vector unless the matrix is symmetric there. For
  the four points \<open>yz_patch\<close> of the plane \<open>x = 0\<close>, \<open>yz_basis\<close> is the basis of the PCA, with
  the variances \<open>8/3\<close>, \<open>2/3\<close> and \<open>0\<close>; its last column, the eigenvector of the eigenvalue
  \<open>0\<close>, is the normal \<open>(1, 0, 0)\<close> of the plane; \<open>calculateNormal\<close> returns \<open>(0, 1, 0)\<close>, a
  vector of the plane, which is the first column, the direction of the largest variance.
\<close>

theorem normal_is_last_row_of_basis:
  "pca_basis yz_patch 4 [8 / 3, 2 / 3, 0] yz_basis \<and>
   calculateNormal (\<lambda>points k nvars. (1, [8 / 3, 2 / 3, 0], yz_basis)) yz_patch 4 = Some [0, 1, 0] \<and>
   column yz_basis (dims - 1) = [1, 0, 0] \<and>
   column yz_basis 0 = [0, 1, 0]"
proof -
  have "pca_basis yz_patch 4 [8 / 3, 2 / 3, 0] yz_basis"
    unfolding pca_basis_def covariance_times_def centred_def Let_def mean_yz upt_dims
    by (simp add: yz_patch_def yz_basis_def has_shape_def column_def dot_def dims_def)
  moreover have "calculateNormal (\<lambda>points k nvars. (1, [8 / 3, 2 / 3, 0], yz_basis)) yz_patch 4
      = Some [0, 1, 0]"
    by (simp add: calculateNormal_def yz_basis_def dims_def rd_def setcontent_def)
  moreover have "column yz_basis (dims - 1) = [1, 0, 0]" "column yz_basis 0 = [0, 1, 0]"
    by (simp_all add: column_def yz_basis_def dims_def)
  ultimately show ?thesis by simp
qed

subsection \<open>The driver\<close>

lemma copy_row_Some:
  assumes "i < length m" "length (m ! i) = dims" "length v = dims"
  shows "for_loop 0 dims (copy_coord v i) m = Some (m[i := v])"
proof -
  have "for_loop 0 dims (copy_coord v i) m = Some (m[i := map (\<lambda>d. v ! d) [0..<dims] @ drop dims (m ! i)])"
    using assms by (intro for_loop_update_row) (simp_all add: copy_coord_def)
  moreover have "map (\<lambda>d. v ! d) [0..<dims] = v"
    using assms(3) by (metis map_nth)
  ultimately show ?thesis using assms by simp
qed

lemma estimate_plane_Some:
  assumes pca: "pca_square pca" and r: "0 \<le> r"
    and P: "\<forall>p\<in>set P. length p = dims" and i: "i < length P"
    and kdt: "kd_xy kdt = P" "length (kd_tags kdt) = length P"
    and cs: "i < length cs" "length (cs ! i) = dims"
    and ns: "i < length ns" "length (ns ! i) = dims"
    and ts: "i < length ts"
  shows "\<exists>kdt'. estimate_plane pca P r i (kdt, cs, ns, ts) =
           Some (kdt', cs[i := mean (ball P (P ! i) r)], ns[i := last_row pca (ball P (P ! i) r)],
                 ts[i := int i]) \<and>
           kd_xy kdt' = P \<and> kd_tags kdt' = kd_tags kdt"
proof -
  let ?q = "P ! i"
  let ?nb = "ball P ?q r"
  have q: "?q \<in> set P" "length ?q = dims" using P i by simp_all
  have sq: "setcontent dims ?q = Some ?q" using q by (simp add: setcontent_def)
  have k: "0 < length ?nb" using q r by (intro ball_self_nonempty)
  have g: "getKNeighbors kdt ?q r =
      (length ?nb, ?nb, kdt\<lparr>kd_buf := filter (\<lambda>(p, t). in_radius ?q r p) (zip P (kd_tags kdt))\<rparr>)"
    using getKNeighbors_eq[of kdt ?q r] kdt by simp
  have c: "calculateCentroid ?nb (length ?nb) = Some (mean ?nb)"
    using calculateCentroid_Some[OF ball_rows[OF P] k] by (simp add: mean_def)
  have cc: "for_loop 0 dims (copy_coord (mean ?nb) i) cs = Some (cs[i := mean ?nb])"
    using cs by (intro copy_row_Some) simp_all
  have nrm: "calculateNormal pca ?nb (length ?nb) = Some (last_row pca ?nb)"
    using calculateNormal_Some[OF pca] by (simp add: last_row_def)
  have cn: "for_loop 0 dims (copy_coord (last_row pca ?nb) i) ns = Some (ns[i := last_row pca ?nb])"
    using ns length_last_row[OF pca] by (intro copy_row_Some) simp_all
  show ?thesis
    using i ts kdt by (simp add: estimate_plane_def sq g c cc nrm cn)
qed

lemma planes_loop_general:
  assumes pca: "pca_square pca" and r: "0 \<le> r"
    and P: "\<forall>p\<in>set P. length p = dims" and n: "n = length P"
    and kdt: "kd_xy kdt = P" "length (kd_tags kdt) = n"
    and cs0: "length cs0 = n" "\<forall>c\<in>set cs0. length c = dims"
    and ns0: "length ns0 = n" "\<forall>v\<in>set ns0. length v = dims"
    and ts0: "length ts0 = n"
  shows "\<exists>kdt'. for_loop 0 n (estimate_plane pca P r) (kdt, cs0, ns0, ts0) =
           Some (kdt', map (\<lambda>i. mean (ball P (P ! i) r)) [0..<n],
                 map (\<lambda>i. last_row pca (ball P (P ! i) r)) [0..<n], map int [0..<n])"
proof -
  let ?cen = "\<lambda>i. mean (ball P (P ! i) r)"
  let ?nor = "\<lambda>i. last_row pca (ball P (P ! i) r)"
  let ?I = "\<lambda>i (st::planes). case st of (k, cs, ns, ts) \<Rightarrow>
      kd_xy k = P \<and> length (kd_tags k) = n \<and>
      cs = map ?cen [0..<i] @ drop i cs0 \<and>
      ns = map ?nor [0..<i] @ drop i ns0 \<and>
      ts = map int [0..<i] @ drop i ts0"
  have "\<exists>st. for_loop 0 n (estimate_plane pca P r) (kdt, cs0, ns0, ts0) = Some st \<and> ?I n st"
  proof (rule for_loop_rule[where I = ?I])
    show "?I 0 (kdt, cs0, ns0, ts0)" using kdt by simp
    show "0 \<le> n" by simp
    fix i st assume i: "i < n" and I: "?I i st"
    obtain k cs ns ts where st: "st = (k, cs, ns, ts)" by (cases st) auto
    from I st have k: "kd_xy k = P" "length (kd_tags k) = n"
      and cs: "cs = map ?cen [0..<i] @ drop i cs0"
      and ns: "ns = map ?nor [0..<i] @ drop i ns0"
      and ts: "ts = map int [0..<i] @ drop i ts0"
      by simp_all
    have rows: "length (cs ! i) = dims" "length (ns ! i) = dims"
      using i cs0 ns0 by (simp_all add: cs ns nth_append)
    have "\<exists>k'. estimate_plane pca P r i (k, cs, ns, ts) =
           Some (k', cs[i := ?cen i], ns[i := ?nor i], ts[i := int i]) \<and>
           kd_xy k' = P \<and> kd_tags k' = kd_tags k"
      using i n k rows cs0(1) ns0(1) ts0 by (intro estimate_plane_Some[OF pca r P])
        (simp_all add: cs ns ts)
    then obtain k' where e: "estimate_plane pca P r i st =
           Some (k', cs[i := ?cen i], ns[i := ?nor i], ts[i := int i])"
      and k': "kd_xy k' = P" "kd_tags k' = kd_tags k"
      using st by blast
    have "?I (Suc i) (k', cs[i := ?cen i], ns[i := ?nor i], ts[i := int i])"
      using i k k' cs0(1) ns0(1) ts0
        update_at_prefix[of "map ?cen [0..<i]" i cs0 "?cen i"]
        update_at_prefix[of "map ?nor [0..<i]" i ns0 "?nor i"]
        update_at_prefix[of "map int [0..<i]" i ts0 "int i"]
      by (simp add: cs ns ts)
    with e show "\<exists>st'. estimate_plane pca P r i st = Some st' \<and> ?I (Suc i) st'" by blast
  qed
  then show ?thesis using cs0(1) ns0(1) ts0 by auto
qed

lemma tagged_ball_tags:
  assumes "(p, t) \<in> set (tagged_ball cs q r)"
  shows "0 \<le> t" "nat t < length cs" "cs ! nat t = p" "in_radius q r p"
proof -
  from assms have z: "(p, t) \<in> set (zip cs (map int [0..<length cs]))" and "in_radius q r p"
    by (auto simp: tagged_ball_def)
  then show "in_radius q r p" by simp
  from z obtain j where j: "j < length cs" "cs ! j = p" "t = int j"
    by (auto simp: set_zip)
  then show "0 \<le> t" "nat t < length cs" "cs ! nat t = p" by simp_all
qed

lemma tagged_ball_in_range:
  assumes "length ns = length cs" "\<forall>v\<in>set ns. dims \<le> length v"
  shows "tags_in_range ns (map snd (tagged_ball cs q r)) (length (tagged_ball cs q r))"
proof -
  have "0 \<le> t \<and> nat t < length ns \<and> dims \<le> length (ns ! nat t)"
    if "t \<in> set (map snd (tagged_ball cs q r))" for t
  proof -
    from that obtain p where "(p, t) \<in> set (tagged_ball cs q r)" by auto
    from tagged_ball_tags(1,2)[OF this] assms show ?thesis by simp
  qed
  then show ?thesis by (simp add: tags_in_range_def list_all_iff)
qed

lemma centroid_patch_Some:
  assumes C: "\<forall>c\<in>set cs. length c = dims" and i: "i < length cs"
    and N: "length ns = length cs" "\<forall>v\<in>set ns. dims \<le> length v"
    and kdt: "kd_xy kdt = cs" "kd_tags kdt = map int [0..<length cs]"
  shows "\<exists>kdt'. centroid_patch cs ns r i (kdt, reported) =
           Some (kdt', reported @ [patch_of cs ns r i]) \<and>
           kd_xy kdt' = cs \<and> kd_tags kdt' = kd_tags kdt"
proof -
  let ?q = "cs ! i"
  let ?found = "tagged_ball cs ?q r"
  have sq: "setcontent dims ?q = Some ?q" using C i by (simp add: setcontent_def)
  have g: "getKNeighborsTagged kdt ?q r =
      (length ?found, map fst ?found, map snd ?found, kdt\<lparr>kd_buf := ?found\<rparr>)"
    using kdt by (simp add: getKNeighborsTagged_eq tagged_ball_def Let_def)
  have p: "patchGraph ns (map snd ?found) (length ?found) =
      Some (map (\<lambda>u. map (wgt ns (map snd ?found) u) [0..<length ?found]) [0..<length ?found])"
    using tagged_ball_in_range[OF N] by (intro patchGraph_Some)
  show ?thesis
    using i kdt by (simp add: centroid_patch_def sq g p patch_of_def Let_def)
qed

lemma patches_loop_Some:
  assumes C: "\<forall>c\<in>set cs. length c = dims" and n: "n = length cs"
    and N: "length ns = length cs" "\<forall>v\<in>set ns. dims \<le> length v"
    and kdt: "kd_xy kdt = cs" "kd_tags kdt = map int [0..<length cs]"
  shows "\<exists>kdt'. for_loop 0 n (centroid_patch cs ns r) (kdt, []) =
           Some (kdt', map (patch_of cs ns r) [0..<n])"
proof -
  let ?I = "\<lambda>i (st::patches). case st of (k, rep) \<Rightarrow>
      kd_xy k = cs \<and> kd_tags k = map int [0..<length cs] \<and> rep = map (patch_of cs ns r) [0..<i]"
  have "\<exists>st. for_loop 0 n (centroid_patch cs ns r) (kdt, []) = Some st \<and> ?I n st"
  proof (rule for_loop_rule[where I = ?I])
    show "?I 0 (kdt, [])" using kdt by simp
    show "0 \<le> n" by simp
    fix i st assume i: "i < n" and I: "?I i st"
    obtain k rep where st: "st = (k, rep)" by (cases st) auto
    from I st have k: "kd_xy k = cs" "kd_tags k = map int [0..<length cs]"
      and rep: "rep = map (patch_of cs ns r) [0..<i]" by simp_all
    from centroid_patch_Some[OF C _ N k, of i r rep] i n
    obtain k' where "centroid_patch cs ns r i (k, rep) = Some (k', rep @ [patch_of cs ns r i])"
      "kd_xy k' = cs" "kd_tags k' = kd_tags k" by auto
    then show "\<exists>st'. centroid_patch cs ns r i st = Some st' \<and> ?I (Suc i) st'"
      using st k rep by simp
  qed
  then show ?thesis by auto
qed

lemma main_Some:
  assumes loaded: "obj_ret (LoadObj (getCloudPointFilename cloudPointsBasePath))"
    and pca: "pca_square pca"
  shows "main LoadObj pca =
           Some \<lparr>exit_status = 0,
                 cerr_lines = snd (snd (loadCloud LoadObj (getCloudPointFilename cloudPointsBasePath))),
                 computed = Some (geometry_of pca
                   (obj_vertices (LoadObj (getCloudPointFilename cloudPointsBasePath))))\<rparr>"
proof -
  let ?file = "getCloudPointFilename cloudPointsBasePath"
  let ?vs = "obj_vertices (LoadObj ?file)"
  let ?P = "cloud ?vs"
  let ?n = "length ?vs div dims"
  let ?C = "map (\<lambda>p. mean (ball ?P p 4)) ?P"
  let ?N = "map (\<lambda>p. last_row pca (ball ?P p 4)) ?P"
  obtain cerr where lc: "loadCloud LoadObj ?file = (True, ?vs, cerr)"
    using loaded by (simp add: loadCloud_def Let_def)
  have n: "length ?P = ?n" by simp
  have adapt: "adaptDataPoints ?vs ?n = Some ?P"
    unfolding cloud_def by (intro adaptDataPoints_Some) simp
  note rows = exact_rows[OF cloud_rows[of ?vs]]
  let ?kdt = "\<lparr>kd_xy = ?P, kd_tags = replicate ?n 0, kd_buf = []\<rparr>"
  have build: "buildKDTree ?P ?n = Some ?kdt"
    using buildKDTree_Some[of ?n ?P] rows by simp
  have "\<exists>kdt'. for_loop 0 ?n (estimate_plane pca ?P 4)
      (?kdt, setlength2 ?n dims, setlength2 ?n dims, setlength ?n) =
      Some (kdt', map (\<lambda>i. mean (ball ?P (?P ! i) 4)) [0..<?n],
            map (\<lambda>i. last_row pca (ball ?P (?P ! i) 4)) [0..<?n], map int [0..<?n])"
  proof (rule planes_loop_general[OF pca _ cloud_rows[of ?vs]])
    show "(0::real) \<le> 4" by simp
    show "?n = length ?P" by simp
    show "kd_xy ?kdt = ?P" by simp
    show "length (kd_tags ?kdt) = ?n" by simp
    show "length (setlength2 ?n dims :: real_2d_array) = ?n" by (simp add: setlength2_def)
    show "\<forall>c\<in>set (setlength2 ?n dims :: real_2d_array). length c = dims"
      by (simp add: setlength2_def)
    show "length (setlength2 ?n dims :: real_2d_array) = ?n" by (simp add: setlength2_def)
    show "\<forall>v\<in>set (setlength2 ?n dims :: real_2d_array). length v = dims"
      by (simp add: setlength2_def)
    show "length (setlength ?n :: integer_1d_array) = ?n" by (simp add: setlength_def)
  qed
  then obtain kdt' where planes: "for_loop 0 ?n (estimate_plane pca ?P 4)
      (?kdt, setlength2 ?n dims, setlength2 ?n dims, setlength ?n) =
      Some (kdt', map (\<lambda>i. mean (ball ?P (?P ! i) 4)) [0..<?n],
            map (\<lambda>i. last_row pca (ball ?P (?P ! i) 4)) [0..<?n], map int [0..<?n])"
    by blast
  have C: "map (\<lambda>i. mean (ball ?P (?P ! i) 4)) [0..<?n] = ?C"
    using map_index[of "\<lambda>p. mean (ball ?P p 4)" ?P] by simp
  have N: "map (\<lambda>i. last_row pca (ball ?P (?P ! i) 4)) [0..<?n] = ?N"
    using map_index[of "\<lambda>p. last_row pca (ball ?P p 4)" ?P] by simp
  have Crows: "\<forall>c\<in>set ?C. length c = dims" by simp
  have Nrows: "\<forall>v\<in>set ?N. dims \<le> length v" by (simp add: length_last_row[OF pca])
  let ?kdtC = "\<lparr>kd_xy = ?C, kd_tags = map int [0..<?n], kd_buf = []\<rparr>"
  have buildC: "buildTaggedKDTree ?C (map int [0..<?n]) ?n = Some ?kdtC"
    using buildTaggedKDTree_Some[of ?n ?C "map int [0..<?n]"] exact_rows[OF Crows] by simp
  from patches_loop_Some[OF Crows _ _ Nrows, of ?n ?kdtC 4]
  obtain kdtC' where patches: "for_loop 0 ?n (centroid_patch ?C ?N 4) (?kdtC, []) =
      Some (kdtC', map (patch_of ?C ?N 4) [0..<?n])"
    by auto
  show ?thesis
    by (simp add: main_def lc adapt build planes C N buildC patches geometry_of_def Let_def)
qed

lemma main_load_failed:
  assumes "\<not> obj_ret (LoadObj (getCloudPointFilename cloudPointsBasePath))"
  shows "main LoadObj pca =
           Some \<lparr>exit_status = 1,
                 cerr_lines = snd (snd (loadCloud LoadObj (getCloudPointFilename cloudPointsBasePath)))
                   @ [''ERROR: The OBJ file could not be loaded!''],
                 computed = None\<rparr>"
  using assms by (simp add: main_def loadCloud_def Let_def)

text \<open>
  In a run, the tags of every neighbourhood index the normals, and the reported matrix is
  the \<open>patchGraph\<close> of these tags: the statements on \<open>patchGraph\<close> above hold of every
  neighbourhood of every run.
\<close>

lemma run_patches:
  assumes "obj_ret (LoadObj (getCloudPointFilename cloudPointsBasePath))" and "pca_square pca"
  shows "\<exists>r g. main LoadObj pca = Some r \<and> computed r = Some g \<and>
           list_all (\<lambda>(neighbors, tags, graph).
               tags_in_range (the_normals g) tags (length tags) \<and>
               patchGraph (the_normals g) tags (length tags) = Some graph)
             (the_graphs g)"
proof -
  let ?vs = "obj_vertices (LoadObj (getCloudPointFilename cloudPointsBasePath))"
  let ?g = "geometry_of pca ?vs"
  let ?P = "cloud ?vs"
  let ?C = "map (\<lambda>p. mean (ball ?P p 4)) ?P"
  let ?N = "map (\<lambda>p. last_row pca (ball ?P p 4)) ?P"
  have g: "the_normals ?g = ?N" "the_graphs ?g = map (patch_of ?C ?N 4) [0..<length ?P]"
    by (simp_all add: geometry_of_def Let_def)
  have N: "length ?N = length ?C" "\<forall>v\<in>set ?N. dims \<le> length v"
    by (simp_all add: length_last_row[OF assms(2)])
  have "tags_in_range ?N tags (length tags) \<and> patchGraph ?N tags (length tags) = Some graph"
    if "patch_of ?C ?N 4 i = (neighbors, tags, graph)" for i neighbors tags graph
  proof -
    let ?found = "tagged_ball ?C (?C ! i) 4"
    from that[unfolded patch_of_def Let_def prod.inject]
    have t: "tags = map snd ?found"
      and gr: "graph = map (\<lambda>u. map (wgt ?N tags u) [0..<length ?found]) [0..<length ?found]"
      by blast+
    have r: "tags_in_range ?N tags (length tags)"
      using tagged_ball_in_range[OF N, of "?C ! i" 4] by (simp add: t)
    from patchGraph_Some[OF r] gr t show ?thesis using r by simp
  qed
  then have "list_all (\<lambda>(neighbors, tags, graph).
               tags_in_range ?N tags (length tags) \<and>
               patchGraph ?N tags (length tags) = Some graph) (the_graphs ?g)"
    unfolding g(2) list_all_iff by (auto simp del: length_map)
  then show ?thesis
    using main_Some[of LoadObj pca] assms by (simp add: g(1))
qed

lemma pca_square_xy_basis: "pca_square xy_basis"
  by (simp add: pca_square_def xy_basis_def has_shape_def dims_def)

text \<open>
  The arrays of the sample rectangle; the run on it, computed by running the loops of the
  model; and the sample PCA is the PCA of that rectangle.
\<close>

lemma square_geometry:
  "the_points (geometry_of xy_basis [0, 0, 0, 2, 0, 0, 0, 1, 0, 2, 1, 0, 7, 7]) =
     [[0, 0, 0], [2, 0, 0], [0, 1, 0], [2, 1, 0]]"
  "the_centroids (geometry_of xy_basis [0, 0, 0, 2, 0, 0, 0, 1, 0, 2, 1, 0, 7, 7]) =
     [[1, 1 / 2, 0], [1, 1 / 2, 0], [1, 1 / 2, 0], [1, 1 / 2, 0]]"
  "the_normals (geometry_of xy_basis [0, 0, 0, 2, 0, 0, 0, 1, 0, 2, 1, 0, 7, 7]) =
     [[0, 0, 1], [0, 0, 1], [0, 0, 1], [0, 0, 1]]"
  "fst (snd (the_graphs (geometry_of xy_basis [0, 0, 0, 2, 0, 0, 0, 1, 0, 2, 1, 0, 7, 7]) ! 0)) =
     [0, 1, 2, 3]"
  by code_simp+

lemma main_square:
  "main square_cloud xy_basis =
     Some \<lparr>exit_status = 0, cerr_lines = [],
           computed = Some (geometry_of xy_basis [0, 0, 0, 2, 0, 0, 0, 1, 0, 2, 1, 0, 7, 7])\<rparr>"
  by code_simp

lemma pca_basis_square:
  "pca_basis [[0, 0, 0], [2, 0, 0], [0, 1, 0], [2, 1, 0]] 4 [4 / 3, 1 / 3, 0]
     [[1, 0, 0], [0, 1, 0], [0, 0, 1]]"
  by code_simp

text \<open>
  Claim C5. When the cloud cannot be loaded, the run ends with exit status 1, the last line on
  \<open>std::cerr\<close> reports the error (after the messages of the loader), and nothing is computed:
  the result holds no arrays and depends neither on the PCA nor on the vertices. When the cloud
  is loaded (and the PCA returns square matrices), the run ends with exit status 0.
\<close>

theorem exit_status_by_load:
  "(let l = LoadObj (getCloudPointFilename cloudPointsBasePath) in
    (\<not> obj_ret l \<longrightarrow>
       main LoadObj pca =
         Some \<lparr>exit_status = 1,
               cerr_lines = (if obj_err l \<noteq> [] then [obj_err l] else [])
                 @ (if obj_warn l \<noteq> [] then [obj_warn l] else [])
                 @ [''ERROR: The OBJ file could not be loaded!''],
               computed = None\<rparr>) \<and>
    (obj_ret l \<and> pca_square pca \<longrightarrow>
       (\<exists>r g. main LoadObj pca = Some r \<and> exit_status r = 0 \<and> computed r = Some g)))"
  by (simp add: Let_def main_load_failed main_Some) (simp add: loadCloud_def Let_def)

theorem exit_status_by_load_witness:
  "main no_cloud xy_basis =
     Some \<lparr>exit_status = 1,
           cerr_lines = [''Cannot open file'', ''ERROR: The OBJ file could not be loaded!''],
           computed = None\<rparr> \<and>
   (\<exists>r g. main square_cloud xy_basis = Some r \<and> exit_status r = 0 \<and> computed r = Some g)"
proof
  show "main no_cloud xy_basis =
     Some \<lparr>exit_status = 1,
           cerr_lines = [''Cannot open file'', ''ERROR: The OBJ file could not be loaded!''],
           computed = None\<rparr>"
    using exit_status_by_load[of no_cloud xy_basis] by (simp add: Let_def no_cloud_def)
  show "\<exists>r g. main square_cloud xy_basis = Some r \<and> exit_status r = 0 \<and> computed r = Some g"
    using exit_status_by_load[of square_cloud xy_basis] pca_square_xy_basis
    by (simp add: Let_def square_cloud_def)
qed

lemma patch_of_length:
  assumes "patch_of cs ns r i = (neighbors, tags, graph)"
  shows "length tags = length neighbors"
proof -
  from assms have "neighbors = map fst (tagged_ball cs (cs ! i) r)"
    and "tags = map snd (tagged_ball cs (cs ! i) r)"
    by (simp_all add: patch_of_def Let_def)
  then show ?thesis by simp
qed

lemma patch_of_slot:
  assumes p: "patch_of cs ns r i = (neighbors, tags, graph)" and u: "u < length tags"
  shows "length tags = length neighbors" "0 \<le> tags ! u" "nat (tags ! u) < length cs"
    "cs ! nat (tags ! u) = neighbors ! u"
proof -
  let ?found = "tagged_ball cs (cs ! i) r"
  from p have n: "neighbors = map fst ?found" and t: "tags = map snd ?found"
    by (simp_all add: patch_of_def Let_def)
  then show "length tags = length neighbors" by simp
  from u t have "?found ! u \<in> set ?found" by simp
  moreover have "?found ! u = (neighbors ! u, tags ! u)"
    using u n t by (simp add: prod_eq_iff)
  ultimately have "(neighbors ! u, tags ! u) \<in> set ?found" by simp
  from tagged_ball_tags(1-3)[OF this]
  show "0 \<le> tags ! u" "nat (tags ! u) < length cs" "cs ! nat (tags ! u) = neighbors ! u"
    by simp_all
qed

lemma plane_of_point:
  assumes P: "\<forall>p\<in>set P. length p = dims" and t: "t < length P" and pca: "pca_square pca"
    and r: "0 \<le> r"
  shows "calculateCentroid (ball P (P ! t) r) (length (ball P (P ! t) r)) =
           Some (mean (ball P (P ! t) r))"
    "calculateNormal pca (ball P (P ! t) r) (length (ball P (P ! t) r)) =
           Some (last_row pca (ball P (P ! t) r))"
proof -
  let ?nb = "ball P (P ! t) r"
  have k: "0 < length ?nb" using t r by (intro ball_self_nonempty) simp_all
  show "calculateCentroid ?nb (length ?nb) = Some (mean ?nb)"
    using calculateCentroid_Some[OF ball_rows[OF P] k] by (simp add: mean_def)
  show "calculateNormal pca ?nb (length ?nb) = Some (last_row pca ?nb)"
    using calculateNormal_Some[OF pca] by (simp add: last_row_def)
qed

text \<open>
  Claim C6. In a run on \<open>N\<close> points, \<open>tagsCentroids[i] = i\<close> for every \<open>i < N\<close>. Every tag
  that the query around a centroid returns is an index below \<open>N\<close>; the entry of
  \<open>tagsCentroids\<close> there is the tag; the centroid at that index is the neighbour the tag came
  with; and the centroid and the normal at that index are the ones computed from the
  neighbourhood of the point with that index.
\<close>

theorem tag_round_trip:
  assumes "obj_ret (LoadObj (getCloudPointFilename cloudPointsBasePath))" and "pca_square pca"
  shows "\<exists>r g. main LoadObj pca = Some r \<and> computed r = Some g \<and>
           the_tags g = map int [0..<length (the_points g)] \<and>
           length (the_graphs g) = length (the_points g) \<and>
           (\<forall>i<length (the_points g). case the_graphs g ! i of (neighbors, tags, graph) \<Rightarrow>
              length tags = length neighbors \<and>
              (\<forall>u<length tags.
                 0 \<le> tags ! u \<and> nat (tags ! u) < length (the_points g) \<and>
                 the_tags g ! nat (tags ! u) = tags ! u \<and>
                 the_centroids g ! nat (tags ! u) = neighbors ! u \<and>
                 (let nb = ball (the_points g) (the_points g ! nat (tags ! u)) 4 in
                    calculateCentroid nb (length nb) = Some (the_centroids g ! nat (tags ! u)) \<and>
                    calculateNormal pca nb (length nb) = Some (the_normals g ! nat (tags ! u)))))"
proof -
  let ?vs = "obj_vertices (LoadObj (getCloudPointFilename cloudPointsBasePath))"
  let ?g = "geometry_of pca ?vs"
  let ?P = "cloud ?vs"
  let ?C = "map (\<lambda>p. mean (ball ?P p 4)) ?P"
  let ?N = "map (\<lambda>p. last_row pca (ball ?P p 4)) ?P"
  have g: "the_points ?g = ?P" "the_centroids ?g = ?C" "the_normals ?g = ?N"
    "the_tags ?g = map int [0..<length ?P]" "the_graphs ?g = map (patch_of ?C ?N 4) [0..<length ?P]"
    by (simp_all add: geometry_of_def Let_def)
  have slot: "length tags = length neighbors \<and>
      (\<forall>u<length tags.
         0 \<le> tags ! u \<and> nat (tags ! u) < length ?P \<and>
         map int [0..<length ?P] ! nat (tags ! u) = tags ! u \<and>
         ?C ! nat (tags ! u) = neighbors ! u \<and>
         (let nb = ball ?P (?P ! nat (tags ! u)) 4 in
            calculateCentroid nb (length nb) = Some (?C ! nat (tags ! u)) \<and>
            calculateNormal pca nb (length nb) = Some (?N ! nat (tags ! u))))"
    if p: "patch_of ?C ?N 4 i = (neighbors, tags, graph)" for i neighbors tags graph
  proof (intro conjI allI impI)
    show "length tags = length neighbors" by (rule patch_of_length[OF p])
    fix u assume u: "u < length tags"
    note s = patch_of_slot[OF p u]
    from s(3) have t: "nat (tags ! u) < length ?P" by simp
    show "0 \<le> tags ! u" by (rule s(2))
    show "nat (tags ! u) < length ?P" by (rule t)
    show "map int [0..<length ?P] ! nat (tags ! u) = tags ! u" using t s(2) by simp
    show "?C ! nat (tags ! u) = neighbors ! u" by (rule s(4))
    show "let nb = ball ?P (?P ! nat (tags ! u)) 4 in
            calculateCentroid nb (length nb) = Some (?C ! nat (tags ! u)) \<and>
            calculateNormal pca nb (length nb) = Some (?N ! nat (tags ! u))"
      using plane_of_point[OF cloud_rows t assms(2), of 4] t by (simp add: Let_def)
  qed
  have "\<forall>i<length ?P. case the_graphs ?g ! i of (neighbors, tags, graph) \<Rightarrow>
      length tags = length neighbors \<and>
      (\<forall>u<length tags.
         0 \<le> tags ! u \<and> nat (tags ! u) < length ?P \<and>
         the_tags ?g ! nat (tags ! u) = tags ! u \<and>
         the_centroids ?g ! nat (tags ! u) = neighbors ! u \<and>
         (let nb = ball ?P (?P ! nat (tags ! u)) 4 in
            calculateCentroid nb (length nb) = Some (the_centroids ?g ! nat (tags ! u)) \<and>
            calculateNormal pca nb (length nb) = Some (the_normals ?g ! nat (tags ! u))))"
  proof (intro allI impI)
    fix i assume i: "i < length ?P"
    obtain neighbors tags graph where p: "patch_of ?C ?N 4 i = (neighbors, tags, graph)"
      by (cases "patch_of ?C ?N 4 i") auto
    have eq: "the_graphs ?g ! i = (neighbors, tags, graph)" using i p by (simp add: g(5))
    show "case the_graphs ?g ! i of (neighbors, tags, graph) \<Rightarrow>
      length tags = length neighbors \<and>
      (\<forall>u<length tags.
         0 \<le> tags ! u \<and> nat (tags ! u) < length ?P \<and>
         the_tags ?g ! nat (tags ! u) = tags ! u \<and>
         the_centroids ?g ! nat (tags ! u) = neighbors ! u \<and>
         (let nb = ball ?P (?P ! nat (tags ! u)) 4 in
            calculateCentroid nb (length nb) = Some (the_centroids ?g ! nat (tags ! u)) \<and>
            calculateNormal pca nb (length nb) = Some (the_normals ?g ! nat (tags ! u))))"
      unfolding eq prod.case g(2-4) by (rule slot[OF p])
  qed
  moreover have "length (the_graphs ?g) = length ?P" by (simp add: g(5))
  ultimately show ?thesis
    using main_Some[of LoadObj pca] assms g(1,4) by simp
qed

theorem tag_round_trip_witness:
  "\<exists>r g. main square_cloud xy_basis = Some r \<and> computed r = Some g \<and>
     the_tags g = [0, 1, 2, 3] \<and>
     (case the_graphs g ! 0 of (neighbors, tags, graph) \<Rightarrow>
        tags = [0, 1, 2, 3] \<and> the_tags g ! nat (tags ! 1) = tags ! 1 \<and>
        the_centroids g ! nat (tags ! 1) = neighbors ! 1 \<and>
        calculateNormal xy_basis (ball (the_points g) (the_points g ! nat (tags ! 1)) 4) 4 =
          Some (the_normals g ! nat (tags ! 1)))"
proof -
  let ?G = "geometry_of xy_basis [0, 0, 0, 2, 0, 0, 0, 1, 0, 2, 1, 0, 7, 7]"
  have "obj_ret (square_cloud (getCloudPointFilename cloudPointsBasePath))"
    by (simp add: square_cloud_def)
  from tag_round_trip[of square_cloud xy_basis, OF this pca_square_xy_basis]
  obtain r g where r: "main square_cloud xy_basis = Some r" and g: "computed r = Some g"
    and t: "the_tags g = map int [0..<length (the_points g)]"
    and slots: "\<forall>i<length (the_points g). case the_graphs g ! i of (neighbors, tags, graph) \<Rightarrow>
              length tags = length neighbors \<and>
              (\<forall>u<length tags.
                 0 \<le> tags ! u \<and> nat (tags ! u) < length (the_points g) \<and>
                 the_tags g ! nat (tags ! u) = tags ! u \<and>
                 the_centroids g ! nat (tags ! u) = neighbors ! u \<and>
                 (let nb = ball (the_points g) (the_points g ! nat (tags ! u)) 4 in
                    calculateCentroid nb (length nb) = Some (the_centroids g ! nat (tags ! u)) \<and>
                    calculateNormal xy_basis nb (length nb) = Some (the_normals g ! nat (tags ! u))))"
    by blast
  from r g have G: "g = ?G" by (auto simp: main_square)
  obtain neighbors tags graph where p: "the_graphs g ! 0 = (neighbors, tags, graph)"
    by (cases "the_graphs g ! 0") auto
  then have tags: "tags = [0, 1, 2, 3]" using square_geometry(4) by (simp add: G)
  have pos: "0 < length (the_points g)" by (simp add: G square_geometry(1))
  from slots[rule_format, OF pos] have "\<forall>u<length tags.
                 0 \<le> tags ! u \<and> nat (tags ! u) < length (the_points g) \<and>
                 the_tags g ! nat (tags ! u) = tags ! u \<and>
                 the_centroids g ! nat (tags ! u) = neighbors ! u \<and>
                 (let nb = ball (the_points g) (the_points g ! nat (tags ! u)) 4 in
                    calculateCentroid nb (length nb) = Some (the_centroids g ! nat (tags ! u)) \<and>
                    calculateNormal xy_basis nb (length nb) = Some (the_normals g ! nat (tags ! u)))"
    unfolding p prod.case by (rule conjunct2)
  moreover have "1 < length tags" by (simp add: tags)
  ultimately have s1: "the_tags g ! nat (tags ! 1) = tags ! 1"
    "the_centroids g ! nat (tags ! 1) = neighbors ! 1"
    "let nb = ball (the_points g) (the_points g ! nat (tags ! 1)) 4 in
       calculateNormal xy_basis nb (length nb) = Some (the_normals g ! nat (tags ! 1))"
    by (simp_all add: Let_def)
  have "length (ball (the_points g) (the_points g ! nat (tags ! 1)) 4) = 4"
    unfolding G square_geometry(1) tags by code_simp
  with s1(3) have "calculateNormal xy_basis (ball (the_points g) (the_points g ! nat (tags ! 1)) 4) 4 =
          Some (the_normals g ! nat (tags ! 1))"
    by (simp add: Let_def)
  moreover have "the_tags g = [0, 1, 2, 3]"
    using t by (simp add: G square_geometry(1) upt_conv_Cons)
  ultimately show ?thesis using r g p tags s1(1,2) by simp
qed


lemma centroid_init_any:
  assumes "length c0 = dims"
  shows "for_loop 0 dims centroid_init c0 = Some (replicate dims 0)"
proof -
  have "for_loop 0 dims centroid_init c0 =
          Some (map (\<lambda>d. (\<lambda>d x. 0) d (c0 ! d)) [0..<dims] @ drop dims c0)"
    using assms by (intro for_loop_update_each) (simp_all add: centroid_init_def)
  then show ?thesis using assms by (simp add: map_replicate_const)
qed












lemma cloud_take: "cloud (take (dims * (length vertices div dims)) vertices) = cloud vertices"
proof -
  let ?n = "length vertices div dims"
  have le: "dims * ?n \<le> length vertices" by simp
  then have len: "length (take (dims * ?n) vertices) = dims * ?n" by simp
  have n: "length (take (dims * ?n) vertices) div dims = ?n"
    unfolding len by (simp add: dims_def)
  have "take (dims * ?n) vertices ! (i * dims + d) = vertices ! (i * dims + d)"
    if "i < ?n" "d < dims" for i d
  proof -
    have "Suc i * dims \<le> ?n * dims" using that(1) by (intro mult_le_mono1) simp
    then have "i * dims + d < dims * ?n" using that(2) by (simp add: mult.commute)
    then show ?thesis by simp
  qed
  then show ?thesis unfolding cloud_def n by simp
qed

text \<open>
  Claim C10. Whatever the length of the loaded list of coordinates, so also when it is not a
  multiple of \<open>dims = 3\<close>, the run does not fail: it works on \<open>N = length div 3\<close> points,
  \<open>points[i][d] = vertices[3 * i + d]\<close>, and is the run on the list without its one or two
  leftover coordinates.
\<close>

theorem leftover_coordinates_ignored:
  assumes "obj_ret (LoadObj (getCloudPointFilename cloudPointsBasePath))" and "pca_square pca"
  shows "let vertices = obj_vertices (LoadObj (getCloudPointFilename cloudPointsBasePath));
             nPoints = length vertices div dims
         in \<exists>r g. main LoadObj pca = Some r \<and> exit_status r = 0 \<and> computed r = Some g \<and>
              length (the_points g) = nPoints \<and>
              (\<forall>i<nPoints. \<forall>d<dims. the_points g ! i ! d = vertices ! (dims * i + d)) \<and>
              main (\<lambda>filename. (LoadObj filename)\<lparr>obj_vertices :=
                      take (dims * nPoints) (obj_vertices (LoadObj filename))\<rparr>) pca = Some r"
proof -
  let ?file = "getCloudPointFilename cloudPointsBasePath"
  let ?vs = "obj_vertices (LoadObj ?file)"
  let ?n = "length ?vs div dims"
  let ?L = "\<lambda>filename. (LoadObj filename)\<lparr>obj_vertices :=
                      take (dims * ?n) (obj_vertices (LoadObj filename))\<rparr>"
  let ?g = "geometry_of pca ?vs"
  have m: "main LoadObj pca = Some \<lparr>exit_status = 0,
      cerr_lines = snd (snd (loadCloud LoadObj ?file)), computed = Some ?g\<rparr>"
    using main_Some[of LoadObj pca] assms by simp
  have "geometry_of pca (take (dims * ?n) ?vs) = ?g"
    by (simp add: geometry_of_def cloud_take)
  moreover have "snd (snd (loadCloud ?L ?file)) = snd (snd (loadCloud LoadObj ?file))"
    by (simp add: loadCloud_def Let_def)
  ultimately have m': "main ?L pca = Some \<lparr>exit_status = 0,
      cerr_lines = snd (snd (loadCloud LoadObj ?file)), computed = Some ?g\<rparr>"
    using main_Some[of ?L pca] assms by simp
  have p: "the_points ?g = cloud ?vs" by (simp add: geometry_of_def Let_def)
  have "\<forall>i<?n. \<forall>d<dims. the_points ?g ! i ! d = ?vs ! (dims * i + d)"
    unfolding p by (simp add: cloud_def mult.commute)
  with m m' p show ?thesis by (simp add: Let_def)
qed

theorem leftover_coordinates_ignored_witness:
  "\<exists>r g. main square_cloud xy_basis = Some r \<and> exit_status r = 0 \<and> computed r = Some g \<and>
     length (obj_vertices (square_cloud (getCloudPointFilename cloudPointsBasePath))) = 14 \<and>
     length (the_points g) = 4 \<and> the_points g ! 3 ! 1 = 1 \<and>
     main (\<lambda>filename. (square_cloud filename)\<lparr>obj_vertices :=
             take 12 (obj_vertices (square_cloud filename))\<rparr>) xy_basis = Some r"
proof -
  let ?vs = "[0, 0, 0, 2, 0, 0, 0, 1, 0, 2, 1, 0, 7, 7] :: real list"
  have vs: "obj_vertices (square_cloud (getCloudPointFilename cloudPointsBasePath)) = ?vs"
    and ret: "obj_ret (square_cloud (getCloudPointFilename cloudPointsBasePath))"
    by (simp_all add: square_cloud_def)
  have n: "length ?vs div dims = 4" "dims * 4 = 12" by (simp_all add: dims_def)
  from leftover_coordinates_ignored[of square_cloud xy_basis, OF ret pca_square_xy_basis]
  obtain r g where r: "main square_cloud xy_basis = Some r" "exit_status r = 0"
      "computed r = Some g" "length (the_points g) = 4"
    and c: "\<forall>i<4. \<forall>d<dims. the_points g ! i ! d = ?vs ! (dims * i + d)"
    and t: "main (\<lambda>filename. (square_cloud filename)\<lparr>obj_vertices :=
             take 12 (obj_vertices (square_cloud filename))\<rparr>) xy_basis = Some r"
    unfolding Let_def vs n by blast
  from c have "the_points g ! 3 ! 1 = ?vs ! (dims * 3 + 1)" by (simp add: dims_def)
  then have "the_points g ! 3 ! 1 = 1" by (simp add: dims_def)
  with r t vs show ?thesis by simp
qed

end
